theory Spec2Isabelle
  imports Main
begin

section \<open>The terminal chat controller\<close>

text \<open>
  A shallow embedding of \<^verbatim>\<open>TerminalChatController\<close>
  (\<^verbatim>\<open>vs/workbench/contrib/terminalContrib/chat/browser/terminalChatController.ts\<close>).
  The controller is a record of its private fields; every method takes the controller
  and returns it updated. Calls made on collaborators (the chat widget, the context
  keys, the accessibility service, the agent service) are appended, in program order,
  to the \<open>trace\<close> field, so that "no call was made" and "this call came last" are
  statements about a list.
\<close>

subsection \<open>Strings\<close>

text \<open>JavaScript's \<^verbatim>\<open>String.prototype.startsWith\<close>.\<close>

definition startsWith :: "string \<Rightarrow> string \<Rightarrow> bool" where
  "startsWith s pat \<longleftrightarrow> take (length pat) s = pat"

text \<open>
  JavaScript's \<^verbatim>\<open>String.prototype.replaceAll\<close> with a string pattern: the
  occurrences of \<open>pat\<close> are found from left to right without overlap, and each is replaced
  by \<open>rep\<close>. With the empty pattern JavaScript puts \<open>rep\<close> before every character and at
  the end.
\<close>

function replaceAll :: "string \<Rightarrow> string \<Rightarrow> string \<Rightarrow> string" where
  "replaceAll pat rep [] = (if pat = [] then rep else [])"
| "replaceAll pat rep (c # cs) =
     (if pat = [] then rep @ c # replaceAll pat rep cs
      else if startsWith (c # cs) pat
        then rep @ replaceAll pat rep (drop (length pat) (c # cs))
      else c # replaceAll pat rep cs)"
  by pat_completeness auto
termination
  by (relation "measure (\<lambda>(pat, rep, s). length s)") auto

declare replaceAll.simps [simp del]

text \<open>The fence marker of line 157, three backticks.\<close>

definition fence :: string where
  "fence = ''```''"

subsection \<open>The markup lexer\<close>

text \<open>
  A token of \<^verbatim>\<open>marked.lexer\<close>: the controller reads the fields \<^verbatim>\<open>type\<close> and
  \<^verbatim>\<open>raw\<close> only.
\<close>

record token =
  token_type :: string
  raw :: string

text \<open>
  Line 157, after the lexer has run:
  \<^verbatim>\<open>tokens.filter(token => token.type === 'code')?.[0]?.raw.replaceAll('```', '')\<close>.
  The optional chain gives \<^verbatim>\<open>undefined\<close> (\<open>None\<close>) when no token has type
  \<^verbatim>\<open>code\<close>.
\<close>

definition codeBlock_of :: "token list \<Rightarrow> string option" where
  "codeBlock_of tokens =
     (case filter (\<lambda>t. token_type t = ''code'') tokens of
        [] \<Rightarrow> None
      | t # _ \<Rightarrow> Some (replaceAll fence [] (raw t)))"

text \<open>
  JavaScript truthiness of a value of type \<^verbatim>\<open>string | undefined\<close>, as tested by
  \<^verbatim>\<open>if (codeBlock)\<close> on line 162: \<^verbatim>\<open>undefined\<close> and the empty string are falsy.
\<close>

definition truthy :: "string option \<Rightarrow> bool" where
  "truthy v \<longleftrightarrow> (case v of None \<Rightarrow> False | Some s \<Rightarrow> s \<noteq> [])"

text \<open>
  \<open>split_fence s\<close> cuts \<open>s\<close> at its first fence marker: the text before the marker and
  the text after it.
\<close>

fun split_fence :: "string \<Rightarrow> (string \<times> string) option" where
  "split_fence [] = None"
| "split_fence (c # cs) =
     (if startsWith (c # cs) fence then Some ([], drop (length fence) (c # cs))
      else map_option (\<lambda>(pre, post). (c # pre, post)) (split_fence cs))"

lemma split_fence_Some:
  "split_fence s = Some (pre, post) \<Longrightarrow> s = pre @ fence @ post"
proof (induction s arbitrary: pre)
  case Nil
  then show ?case by simp
next
  case (Cons c cs)
  show ?case
  proof (cases "startsWith (c # cs) fence")
    case True
    with Cons.prems have "pre = []" "post = drop (length fence) (c # cs)"
      by simp_all
    moreover from True have "take (length fence) (c # cs) = fence"
      by (simp add: startsWith_def)
    ultimately show ?thesis
      by (metis append_Nil append_take_drop_id)
  next
    case False
    with Cons.prems obtain b where "split_fence cs = Some (b, post)" "pre = c # b"
      by auto
    with Cons.IH show ?thesis by simp
  qed
qed

definition text_token :: "string \<Rightarrow> token list" where
  "text_token s = (if s = [] then [] else [\<lparr>token_type = ''paragraph'', raw = s\<rparr>])"

text \<open>
  Modelled from the spec: \<^verbatim>\<open>marked.lexer\<close> (\<^verbatim>\<open>vs/base/common/marked/marked\<close>) is
  not among the sources. The spec describes it as parsing the buffer "as lightweight
  structured markup" into top-level tokens, one kind of which is the fenced-code token,
  a fenced code block being "a markup convention delimiting literal text with
  triple-backtick markers"; its design notes reduce it to "a minimal fenced-code-block
  scanner". So: the text between a fence marker and the next one, markers included, is
  the raw text of a token of type \<^verbatim>\<open>code\<close>; all other text forms paragraph tokens; a
  marker with no closing marker delimits nothing and stays text.
\<close>

function lexer :: "string \<Rightarrow> token list" where
  "lexer s =
     (case split_fence s of
        None \<Rightarrow> text_token s
      | Some (pre, rest) \<Rightarrow>
          (case split_fence rest of
             None \<Rightarrow> text_token s
           | Some (body, post) \<Rightarrow>
               text_token pre
                 @ \<lparr>token_type = ''code'', raw = fence @ body @ fence\<rparr>
                 # lexer post))"
  by pat_completeness auto
termination
proof (relation "measure length")
  show "wf (measure length)" by simp
next
  fix s :: string and x2 pre rest x2a body post
  assume "split_fence s = Some x2" "(pre, rest) = x2"
    "split_fence rest = Some x2a" "(body, post) = x2a"
  then have "s = pre @ fence @ rest" "rest = body @ fence @ post"
    by (simp_all add: split_fence_Some)
  then show "(post, s) \<in> measure length"
    by (simp add: fence_def)
qed

declare lexer.simps [simp del]

subsection \<open>Collaborators\<close>

text \<open>\<^verbatim>\<open>IDimension\<close> of \<^verbatim>\<open>vs/base/browser/dom\<close>.\<close>

record IDimension =
  width :: int
  height :: int

text \<open>
  \<^verbatim>\<open>IChatProgress\<close>: a progress chunk of the agent. The controller reads its
  \<^verbatim>\<open>kind\<close> and, for two kinds, its \<^verbatim>\<open>content\<close>.
\<close>

record IChatProgress =
  kind :: string
  content :: string

text \<open>
  \<^verbatim>\<open>InlineChatResponseTypes\<close>; the controller only ever writes
  \<^verbatim>\<open>OnlyMessages\<close>.
\<close>

datatype InlineChatResponseTypes = OnlyMessages | OnlyEdits | Mixed

text \<open>
  \<^verbatim>\<open>IContextKey<T>\<close>: a flag owned by the context key service. \<open>None\<close> is a key that
  nobody has set yet.
\<close>

datatype 'a IContextKey = IContextKey (get: "'a option")

definition set_key :: "'a \<Rightarrow> 'a IContextKey \<Rightarrow> 'a IContextKey" where
  "set_key v k = IContextKey (Some v)"

text \<open>
  Modelled from the spec: \<^verbatim>\<open>CancellationTokenSource\<close>
  (\<^verbatim>\<open>vs/base/common/cancellation\<close>) is not among the sources. The spec has it as "a
  single shared flag plus a derived is-cancelled token": the token handed out by
  \<^verbatim>\<open>.token\<close> reads the flag of its source, and \<^verbatim>\<open>cancel()\<close> raises the flag for
  good.
\<close>

record CancellationTokenSource =
  isCancellationRequested :: bool

text \<open>
  The chat widget, as far as the controller can observe it: the text that
  \<^verbatim>\<open>input()\<close> returns.
\<close>

record TerminalChatWidget =
  input_value :: string

text \<open>
  Modelled from the spec: \<^verbatim>\<open>Lazy\<close> (\<^verbatim>\<open>vs/base/common/lazy\<close>) is not among the
  sources. The spec has it as "a nullable owned instance plus a builder function
  invoked at most once": the builder has not run, has produced the value, or has
  failed. \<^verbatim>\<open>rawValue\<close> is the value when there is one, and does not run the builder.
\<close>

datatype 'a Lazy = NotRun | Value 'a | BuilderFailed

text \<open>\<^verbatim>\<open>IChatAgentRequest\<close>, as built on lines 139 to 146.\<close>

record IChatAgentRequest =
  sessionId :: string
  requestId :: string
  agentId :: string
  message :: string
  variables :: "(string \<times> string list) list"
  variables2_message :: string
  variables2_variables :: "string list"

text \<open>
  A call on a collaborator. \<open>UpdateProgress None\<close> is the call without argument, which
  clears the progress display.
\<close>

datatype event =
    AcceptRequest
  | SetHasActiveRequest bool
  | SetHasTerminalAgent bool
  | SetLastResponseType InlineChatResponseTypes
  | OnDidChangeAgents
  | CreateInstance
  | Layout int
  | Input
  | SetValue
  | UpdateProgress "IChatProgress option"
  | RenderTerminalCommand string nat
  | RenderMessage string nat string
  | InvokeAgent IChatAgentRequest

datatype error = TypeError | Error string

text \<open>How a call ends: it returns a value, or it throws.\<close>

datatype 'a completion = Returned 'a | Threw error

subsection \<open>The controller\<close>

text \<open>
  The private fields. The three context keys and the cancellation token source are
  declared with \<^verbatim>\<open>!\<close> and assigned by the constructor only past its feature gate, so
  each is an option: \<open>None\<close> is the field that was never assigned.
\<close>

record TerminalChatController =
  chatWidget :: "TerminalChatWidget Lazy option"
  lastLayoutDimensions :: "IDimension option"
  accessibilityRequestId :: nat
  ctxHasActiveRequest :: "bool IContextKey option"
  ctxHasTerminalAgent :: "bool IContextKey option"
  ctxLastResponseType :: "InlineChatResponseTypes IContextKey option"
  cancellationTokenSource :: "CancellationTokenSource option"
  trace :: "event list"

definition emit :: "event \<Rightarrow> TerminalChatController \<Rightarrow> TerminalChatController" where
  "emit e c = c\<lparr>trace := trace c @ [e]\<rparr>"

text \<open>
  The constructor (lines 50 to 79). \<open>experimentalInlineChat\<close> is what the configuration
  service answers for \<^verbatim>\<open>TerminalSettingId.ExperimentalInlineChat\<close>, \<open>hasAgent\<close> what
  the agent service answers for \<^verbatim>\<open>hasAgent('terminal')\<close>.
\<close>

definition unassigned :: TerminalChatController where
  "unassigned =
     \<lparr>chatWidget = None, lastLayoutDimensions = None, accessibilityRequestId = 0,
      ctxHasActiveRequest = None, ctxHasTerminalAgent = None, ctxLastResponseType = None,
      cancellationTokenSource = None, trace = []\<rparr>"

definition constructor :: "bool \<Rightarrow> bool \<Rightarrow> TerminalChatController" where
  "constructor experimentalInlineChat hasAgent =
     (if \<not> experimentalInlineChat then unassigned
      else
        let c = unassigned
              \<lparr>ctxHasActiveRequest := Some (IContextKey None),
               ctxHasTerminalAgent := Some (IContextKey None),
               ctxLastResponseType := Some (IContextKey None)\<rparr>;
            c = (if \<not> hasAgent then emit OnDidChangeAgents c
                 else emit (SetHasTerminalAgent True)
                        (c\<lparr>ctxHasTerminalAgent := Some (IContextKey (Some True))\<rparr>))
        in c\<lparr>cancellationTokenSource := Some \<lparr>isCancellationRequested = False\<rparr>\<rparr>)"

text \<open>\<^verbatim>\<open>this._chatWidget?.rawValue\<close>.\<close>

definition rawValue :: "TerminalChatController \<Rightarrow> TerminalChatWidget option" where
  "rawValue c = (case chatWidget c of Some (Value w) \<Rightarrow> Some w | _ \<Rightarrow> None)"

text \<open>
  \<^verbatim>\<open>this._chatWidget?.rawValue?.m(...)\<close>: the call \<open>e\<close> reaches the widget when the
  widget has been built, and is dropped otherwise.
\<close>

definition widget_call :: "event \<Rightarrow> TerminalChatController \<Rightarrow> TerminalChatController" where
  "widget_call e c = (case rawValue c of None \<Rightarrow> c | Some w \<Rightarrow> emit e c)"

text \<open>\<^verbatim>\<open>layout\<close> (lines 81 to 87).\<close>

definition layout :: "bool \<Rightarrow> IDimension \<Rightarrow> TerminalChatController \<Rightarrow> TerminalChatController" where
  "layout experimentalInlineChat dimension c =
     (if \<not> experimentalInlineChat then c
      else widget_call (Layout (width dimension)) (c\<lparr>lastLayoutDimensions := Some dimension\<rparr>))"

text \<open>\<^verbatim>\<open>xtermReady\<close> (lines 89 to 115): a fresh \<^verbatim>\<open>Lazy\<close> whose builder has not run.\<close>

definition xtermReady :: "bool \<Rightarrow> TerminalChatController \<Rightarrow> TerminalChatController" where
  "xtermReady experimentalInlineChat c =
     (if \<not> experimentalInlineChat then c else c\<lparr>chatWidget := Some NotRun\<rparr>)"

text \<open>
  The getter \<^verbatim>\<open>chatWidget\<close> (line 42), \<^verbatim>\<open>this._chatWidget?.value\<close>, which runs the
  builder of lines 93 to 114 on first use. \<open>w\<close> is the widget that
  \<^verbatim>\<open>createInstance\<close> returns and \<open>domElement\<close> tells whether the terminal instance has
  its DOM element.
\<close>

definition get_chatWidget ::
  "TerminalChatWidget \<Rightarrow> bool \<Rightarrow> TerminalChatController
     \<Rightarrow> TerminalChatWidget option completion \<times> TerminalChatController" where
  "get_chatWidget w domElement c =
     (case chatWidget c of
        None \<Rightarrow> (Returned None, c)
      | Some (Value v) \<Rightarrow> (Returned (Some v), c)
      | Some BuilderFailed \<Rightarrow> (Threw (Error ''FindWidget expected terminal DOM to be initialized''), c)
      | Some NotRun \<Rightarrow>
          let c = emit CreateInstance c in
          if \<not> domElement
          then (Threw (Error ''FindWidget expected terminal DOM to be initialized''),
                c\<lparr>chatWidget := Some BuilderFailed\<rparr>)
          else
            let c = (case lastLayoutDimensions c of
                       None \<Rightarrow> c
                     | Some d \<Rightarrow> emit (Layout (width d)) c)
            in (Returned (Some w), c\<lparr>chatWidget := Some (Value w)\<rparr>))"

text \<open>\<^verbatim>\<open>cancel\<close> (lines 117 to 119).\<close>

definition cancel :: "TerminalChatController \<Rightarrow> unit completion \<times> TerminalChatController" where
  "cancel c =
     (case cancellationTokenSource c of
        None \<Rightarrow> (Threw TypeError, c)
      | Some src \<Rightarrow>
          (Returned (), c\<lparr>cancellationTokenSource := Some (src\<lparr>isCancellationRequested := True\<rparr>)\<rparr>))"

subsection \<open>The agent, as seen from one request\<close>

text \<open>
  \<^verbatim>\<open>acceptInput\<close> is suspended once, at the \<^verbatim>\<open>await\<close> of line 150. What happens
  while it is suspended is the environment's choice: the agent calls the progress
  callback with a chunk, or the user interface calls \<^verbatim>\<open>cancel()\<close> on the controller;
  finally the invocation resolves or rejects (a synchronous throw of
  \<^verbatim>\<open>invokeAgent\<close> is a rejection with no events). The two identifiers are the
  values that \<^verbatim>\<open>generateUuid()\<close> returns, in call order.
\<close>

datatype agent_event = Progress IChatProgress | CancelRequested

datatype agent_result = Resolved | Rejected

record environment =
  uuid_first :: string
  uuid_second :: string
  agent_events :: "agent_event list"
  agent_result :: agent_result

text \<open>
  The \<^verbatim>\<open>return\<close> statement that ended a run of \<^verbatim>\<open>acceptInput\<close>: line 155 (the agent
  failed), line 160 (cancelled), or the end of the function after the command branch or
  after the message branch. The source returns nothing; the tag only names the path.
\<close>

datatype outcome = AgentFailed | Cancelled | Command | Message

text \<open>
  \<^verbatim>\<open>cancellationToken.isCancellationRequested\<close>, for the token that line 125 takes
  from the source. The token reads its source's flag, and the controller never replaces
  its source, so the token of a running request is that of the controller's source.
\<close>

definition token_cancelled :: "TerminalChatController \<Rightarrow> bool" where
  "token_cancelled c =
     (case cancellationTokenSource c of None \<Rightarrow> False | Some src \<Rightarrow> isCancellationRequested src)"

text \<open>
  \<^verbatim>\<open>progressCallback\<close> (lines 127 to 136). The closure's variable \<^verbatim>\<open>message\<close> is the
  first component of the state.
\<close>

definition progressCallback ::
  "IChatProgress \<Rightarrow> string \<times> TerminalChatController \<Rightarrow> string \<times> TerminalChatController" where
  "progressCallback progress st =
     (case st of (msg, c) \<Rightarrow>
        if token_cancelled c then (msg, c)
        else
          let msg = (if kind progress = ''content'' \<or> kind progress = ''markdownContent''
                     then msg @ content progress else msg)
          in (msg, widget_call (UpdateProgress (Some progress)) c))"

text \<open>What happens during the \<^verbatim>\<open>await\<close>, event by event.\<close>

fun invokeAgent ::
  "agent_event list \<Rightarrow> string \<times> TerminalChatController \<Rightarrow> string \<times> TerminalChatController" where
  "invokeAgent [] st = st"
| "invokeAgent (Progress progress # es) st = invokeAgent es (progressCallback progress st)"
| "invokeAgent (CancelRequested # es) st = invokeAgent es (fst st, snd (cancel (snd st)))"

text \<open>\<^verbatim>\<open>this._ctxHasActiveRequest.set(v)\<close>; a field that was never assigned throws.\<close>

definition set_HasActiveRequest ::
  "bool \<Rightarrow> TerminalChatController \<Rightarrow> unit completion \<times> TerminalChatController" where
  "set_HasActiveRequest v c =
     (case ctxHasActiveRequest c of
        None \<Rightarrow> (Threw TypeError, c)
      | Some k \<Rightarrow>
          (Returned (), emit (SetHasActiveRequest v) (c\<lparr>ctxHasActiveRequest := Some (set_key v k)\<rparr>)))"

text \<open>\<^verbatim>\<open>this._ctxLastResponseType.set(v)\<close>.\<close>

definition set_LastResponseType ::
  "InlineChatResponseTypes \<Rightarrow> TerminalChatController
     \<Rightarrow> unit completion \<times> TerminalChatController" where
  "set_LastResponseType v c =
     (case ctxLastResponseType c of
        None \<Rightarrow> (Threw TypeError, c)
      | Some k \<Rightarrow>
          (Returned (), emit (SetLastResponseType v) (c\<lparr>ctxLastResponseType := Some (set_key v k)\<rparr>)))"

text \<open>\<^verbatim>\<open>this._chatWidget?.rawValue?.input() || ''\<close>.\<close>

definition widget_input :: "TerminalChatController \<Rightarrow> string \<times> TerminalChatController" where
  "widget_input c =
     (case rawValue c of None \<Rightarrow> ([], c) | Some w \<Rightarrow> (input_value w, emit Input c))"

text \<open>
  \<^verbatim>\<open>this._chatWidget?.rawValue?.setValue()\<close>. Modelled from the spec: the widget's
  \<^verbatim>\<open>setValue\<close> is not among the sources; the spec has the call "clear the input field
  in the sink".
\<close>

definition widget_setValue :: "TerminalChatController \<Rightarrow> TerminalChatController" where
  "widget_setValue c =
     (case rawValue c of
        None \<Rightarrow> c
      | Some w \<Rightarrow> emit SetValue (c\<lparr>chatWidget := Some (Value (w\<lparr>input_value := []\<rparr>))\<rparr>))"

text \<open>Lines 169 and 170, the end of both branches.\<close>

definition finish ::
  "outcome \<Rightarrow> TerminalChatController \<Rightarrow> outcome completion \<times> TerminalChatController" where
  "finish out c =
     (case set_HasActiveRequest False c of
        (Threw e, c) \<Rightarrow> (Threw e, c)
      | (Returned _, c) \<Rightarrow> (Returned out, widget_call (UpdateProgress None) c))"

text \<open>
  Lines 157 to 171: what \<^verbatim>\<open>acceptInput\<close> does once the invocation has resolved.
  \<open>tokenize\<close> is the lexer, \<open>rid\<close> the request identifier, \<open>msg\<close> the text accumulated by the
  progress callback.
\<close>

definition classify ::
  "(string \<Rightarrow> token list) \<Rightarrow> string \<Rightarrow> string \<Rightarrow> TerminalChatController
     \<Rightarrow> outcome completion \<times> TerminalChatController" where
  "classify tokenize rid msg c =
     (let codeBlock = codeBlock_of (tokenize msg);
          c = c\<lparr>accessibilityRequestId := accessibilityRequestId c + 1\<rparr>
      in
        if token_cancelled c then (Returned Cancelled, c)
        else if truthy codeBlock then
          finish Command
            (widget_call
               (RenderTerminalCommand (case codeBlock of None \<Rightarrow> [] | Some cb \<Rightarrow> cb)
                  (accessibilityRequestId c)) c)
        else
          (case set_LastResponseType OnlyMessages
                  (widget_call (RenderMessage msg (accessibilityRequestId c) rid) c) of
             (Threw e, c) \<Rightarrow> (Threw e, c)
           | (Returned _, c) \<Rightarrow> finish Message c))"

text \<open>Lines 151 to 156, the \<^verbatim>\<open>catch\<close> block.\<close>

definition on_agent_error ::
  "TerminalChatController \<Rightarrow> outcome completion \<times> TerminalChatController" where
  "on_agent_error c =
     (case set_HasActiveRequest False c of
        (Threw e, c) \<Rightarrow> (Threw e, c)
      | (Returned _, c) \<Rightarrow> (Returned AgentFailed, widget_call (UpdateProgress None) c))"

text \<open>
  Lines 137 to 147: the request is built from the widget's input, read twice, and the
  input is cleared.
\<close>

definition build_request ::
  "environment \<Rightarrow> TerminalChatController \<Rightarrow> IChatAgentRequest \<times> TerminalChatController" where
  "build_request env c =
     (case widget_input c of (m1, c) \<Rightarrow>
      case widget_input c of (m2, c) \<Rightarrow>
        (\<lparr>sessionId = uuid_second env, requestId = uuid_first env, agentId = ''terminal'',
          message = m1, variables = [], variables2_message = m2, variables2_variables = []\<rparr>,
         widget_setValue c))"

text \<open>\<^verbatim>\<open>acceptInput\<close> (lines 121 to 171).\<close>

definition acceptInput ::
  "(string \<Rightarrow> token list) \<Rightarrow> environment \<Rightarrow> TerminalChatController
     \<Rightarrow> outcome completion \<times> TerminalChatController" where
  "acceptInput tokenize env c =
     (case set_HasActiveRequest True (emit AcceptRequest c) of
        (Threw e, c) \<Rightarrow> (Threw e, c)
      | (Returned _, c) \<Rightarrow>
          (case cancellationTokenSource c of
             None \<Rightarrow> (Threw TypeError, c)
           | Some _ \<Rightarrow>
               (case build_request env c of (requestProps, c) \<Rightarrow>
                case invokeAgent (agent_events env) ([], emit (InvokeAgent requestProps) c) of
                  (msg, c) \<Rightarrow>
                    (case agent_result env of
                       Rejected \<Rightarrow> on_agent_error c
                     | Resolved \<Rightarrow> classify tokenize (uuid_first env) msg c))))"

text \<open>Successive calls of \<^verbatim>\<open>acceptInput\<close> on one controller, one per environment.\<close>

fun acceptInputs ::
  "(string \<Rightarrow> token list) \<Rightarrow> environment list \<Rightarrow> TerminalChatController
     \<Rightarrow> outcome completion list \<times> TerminalChatController" where
  "acceptInputs tokenize [] c = ([], c)"
| "acceptInputs tokenize (env # envs) c =
     (case acceptInput tokenize env c of (r, c) \<Rightarrow>
      case acceptInputs tokenize envs c of (rs, c) \<Rightarrow> (r # rs, c))"

subsection \<open>Vocabulary of the statements\<close>

text \<open>
  The constructor ran past its feature gate: the context keys are bound and the
  cancellation token source exists.
\<close>

definition initialized :: "TerminalChatController \<Rightarrow> bool" where
  "initialized c \<longleftrightarrow>
     ctxHasActiveRequest c \<noteq> None \<and> ctxHasTerminalAgent c \<noteq> None
       \<and> ctxLastResponseType c \<noteq> None \<and> cancellationTokenSource c \<noteq> None"

text \<open>The calls that one method made: what it appended to the trace.\<close>

definition new_events :: "TerminalChatController \<Rightarrow> TerminalChatController \<Rightarrow> event list" where
  "new_events c c' = drop (length (trace c)) (trace c')"

definition is_render :: "event \<Rightarrow> bool" where
  "is_render e =
     (case e of RenderTerminalCommand _ _ \<Rightarrow> True | RenderMessage _ _ _ \<Rightarrow> True | _ \<Rightarrow> False)"

definition is_progress :: "event \<Rightarrow> bool" where
  "is_progress e = (case e of UpdateProgress (Some _) \<Rightarrow> True | _ \<Rightarrow> False)"

text \<open>A chunk whose text the progress callback appends (line 132).\<close>

definition is_text :: "IChatProgress \<Rightarrow> bool" where
  "is_text p \<longleftrightarrow> kind p = ''content'' \<or> kind p = ''markdownContent''"

text \<open>The in-order concatenation of the text-bearing chunks.\<close>

definition text_of :: "IChatProgress list \<Rightarrow> string" where
  "text_of ps = concat (map content (filter is_text ps))"

text \<open>The chunks as the widget of \<open>c\<close> receives them: all of them, or none without a widget.\<close>

definition forwarded :: "TerminalChatController \<Rightarrow> IChatProgress list \<Rightarrow> event list" where
  "forwarded c ps =
     (case rawValue c of None \<Rightarrow> [] | Some w \<Rightarrow> map (\<lambda>p. UpdateProgress (Some p)) ps)"

text \<open>The chunks that arrive before the first \<^verbatim>\<open>cancel()\<close>.\<close>

fun chunks_before_cancel :: "agent_event list \<Rightarrow> IChatProgress list" where
  "chunks_before_cancel [] = []"
| "chunks_before_cancel (Progress p # es) = p # chunks_before_cancel es"
| "chunks_before_cancel (CancelRequested # es) = []"

definition delivered :: "agent_event list \<Rightarrow> TerminalChatController \<Rightarrow> IChatProgress list" where
  "delivered es c = (if token_cancelled c then [] else chunks_before_cancel es)"

text \<open>
  Cancellation was requested before the classification step: the token was already
  cancelled when the call began, or \<^verbatim>\<open>cancel()\<close> ran during the invocation.
\<close>

definition cancelled_after :: "agent_event list \<Rightarrow> TerminalChatController \<Rightarrow> bool" where
  "cancelled_after es c \<longleftrightarrow> token_cancelled c \<or> CancelRequested \<in> set es"

text \<open>The controller when \<^verbatim>\<open>acceptInput\<close> suspends on line 150, and when it resumes.\<close>

definition at_await :: "environment \<Rightarrow> TerminalChatController \<Rightarrow> TerminalChatController" where
  "at_await env c =
     (case build_request env (snd (set_HasActiveRequest True (emit AcceptRequest c))) of
        (requestProps, c) \<Rightarrow> emit (InvokeAgent requestProps) c)"

definition after_agent :: "environment \<Rightarrow> TerminalChatController \<Rightarrow> TerminalChatController" where
  "after_agent env c = snd (invokeAgent (agent_events env) ([], at_await env c))"

text \<open>The calls of lines 123 to 150, and those of lines 169 and 170 (or 153 and 154).\<close>

definition request_events :: "environment \<Rightarrow> TerminalChatController \<Rightarrow> event list" where
  "request_events env c =
     [AcceptRequest, SetHasActiveRequest True]
       @ (case rawValue c of None \<Rightarrow> [] | Some w \<Rightarrow> [Input, Input, SetValue])
       @ [InvokeAgent (fst (build_request env c))]"

definition finish_events :: "TerminalChatController \<Rightarrow> event list" where
  "finish_events c =
     SetHasActiveRequest False # (case rawValue c of None \<Rightarrow> [] | Some w \<Rightarrow> [UpdateProgress None])"

text \<open>A render call as the widget of \<open>c\<close> receives it.\<close>

definition render_events :: "TerminalChatController \<Rightarrow> event \<Rightarrow> event list" where
  "render_events c e = (case rawValue c of None \<Rightarrow> [] | Some w \<Rightarrow> [e])"

text \<open>The buffer when the invocation resolves: the text of the chunks that were delivered.\<close>

definition buffer_of :: "environment \<Rightarrow> TerminalChatController \<Rightarrow> string" where
  "buffer_of env c = text_of (delivered (agent_events env) c)"

text \<open>JavaScript's \<^verbatim>\<open>String.prototype.includes\<close>.\<close>

fun includes_str :: "string \<Rightarrow> string \<Rightarrow> bool" where
  "includes_str [] pat \<longleftrightarrow> pat = []"
| "includes_str (c # cs) pat \<longleftrightarrow> startsWith (c # cs) pat \<or> includes_str cs pat"

subsection \<open>Concrete inputs\<close>

definition newline :: string where
  "newline = [CHR 0x0A]"

definition example_widget :: TerminalChatWidget where
  "example_widget = \<lparr>input_value = ''list files''\<rparr>"

text \<open>
  A controller built with the feature on and a registered agent, whose terminal became
  ready and whose widget was then built.
\<close>

definition example_controller :: TerminalChatController where
  "example_controller =
     snd (get_chatWidget example_widget True (xtermReady True (constructor True True)))"

definition example_env :: "agent_event list \<Rightarrow> agent_result \<Rightarrow> environment" where
  "example_env es r =
     \<lparr>uuid_first = ''request-1'', uuid_second = ''session-1'', agent_events = es, agent_result = r\<rparr>"

definition chunk :: "string \<Rightarrow> string \<Rightarrow> agent_event" where
  "chunk k s = Progress \<lparr>kind = k, content = s\<rparr>"

text \<open>
  An invocation that streams a fenced block in two text chunks, with a chunk of another
  kind in between.
\<close>

definition command_chunks :: "agent_event list" where
  "command_chunks =
     [chunk ''content'' ''```echo '', chunk ''progressMessage'' ''thinking'',
      chunk ''markdownContent'' ''hi```'']"

text \<open>A buffer that consists of fence markers only.\<close>

definition empty_block_chunks :: "agent_event list" where
  "empty_block_chunks = [chunk ''content'' ''```'', chunk ''content'' ''```'']"

text \<open>An invocation during which the user cancels.\<close>

definition cancelled_chunks :: "agent_event list" where
  "cancelled_chunks = [chunk ''content'' ''```ls```'', CancelRequested, chunk ''content'' ''more'']"

text \<open>The same three chunks, as the callback receives them.\<close>

definition three_chunks :: "IChatProgress list" where
  "three_chunks =
     [\<lparr>kind = ''content'', content = ''```echo ''\<rparr>,
      \<lparr>kind = ''progressMessage'', content = ''thinking''\<rparr>,
      \<lparr>kind = ''markdownContent'', content = ''hi```''\<rparr>]"

text \<open>The backtick character.\<close>

definition backtick :: char where
  "backtick = CHR 0x60"

text \<open>The text \<^verbatim>\<open>bash\<close>, newline, \<^verbatim>\<open>echo hi\<close>, newline: an info string and a code body.\<close>

definition bash_text :: string where
  "bash_text = ''bash'' @ newline @ ''echo hi'' @ newline"

text \<open>An invocation that streams a fenced block with the info string \<^verbatim>\<open>bash\<close>.\<close>

definition bash_chunks :: "agent_event list" where
  "bash_chunks =
     [chunk ''markdownContent'' (''```bash'' @ newline),
      chunk ''progressMessage'' ''thinking'',
      chunk ''markdownContent'' (''echo hi'' @ newline),
      chunk ''markdownContent'' ''```'']"

text \<open>An invocation that streams text without any fence marker.\<close>

definition plain_chunks :: "agent_event list" where
  "plain_chunks = [chunk ''content'' ''no code '', chunk ''content'' ''here'']"

section \<open>Properties\<close>

subsection \<open>The invocation\<close>

lemma rawValue_trace [simp]: "rawValue (c\<lparr>trace := t\<rparr>) = rawValue c"
  by (simp add: rawValue_def)

lemma rawValue_src [simp]: "rawValue (c\<lparr>cancellationTokenSource := t\<rparr>) = rawValue c"
  by (simp add: rawValue_def)

lemma token_cancelled_widget_call [simp]:
  "token_cancelled (widget_call e c) = token_cancelled c"
  by (simp add: token_cancelled_def widget_call_def emit_def split: option.splits)

lemma rawValue_widget_call [simp]: "rawValue (widget_call e c) = rawValue c"
  by (simp add: widget_call_def emit_def split: option.splits)

lemma trace_widget_call:
  "trace (widget_call e c) = trace c @ (case rawValue c of None \<Rightarrow> [] | Some w \<Rightarrow> [e])"
  by (simp add: widget_call_def emit_def split: option.splits)

text \<open>Once the token is cancelled, no event of the invocation changes anything.\<close>

lemma invokeAgent_cancelled:
  "cancellationTokenSource c = Some src \<Longrightarrow> isCancellationRequested src \<Longrightarrow>
   invokeAgent es (msg, c) = (msg, c)"
proof (induction es)
  case Nil
  then show ?case by simp
next
  case (Cons e es)
  show ?case
  proof (cases e)
    case (Progress p)
    with Cons show ?thesis by (simp add: progressCallback_def token_cancelled_def)
  next
    case CancelRequested
    from Cons.prems have "snd (cancel c) = c" by (simp add: cancel_def)
    with Cons CancelRequested show ?thesis by simp
  qed
qed

text \<open>
  The invocation in closed form: the buffer gains the text of the chunks delivered
  before the first cancellation, the widget receives those chunks, and the token ends
  cancelled exactly when cancellation was requested.
\<close>

lemma invokeAgent_run:
  "cancellationTokenSource c = Some src \<Longrightarrow>
   invokeAgent es (msg, c) =
     (msg @ text_of (delivered es c),
      c\<lparr>cancellationTokenSource := Some (src\<lparr>isCancellationRequested := cancelled_after es c\<rparr>),
        trace := trace c @ forwarded c (delivered es c)\<rparr>)"
proof (induction es arbitrary: msg c src)
  case Nil
  then show ?case
    by (simp add: text_of_def delivered_def cancelled_after_def forwarded_def token_cancelled_def
        split: option.splits)
next
  case (Cons e es)
  show ?case
  proof (cases "isCancellationRequested src")
    case True
    with Cons.prems have "invokeAgent (e # es) (msg, c) = (msg, c)"
      by (simp add: invokeAgent_cancelled)
    moreover from True Cons.prems have "token_cancelled c" by (simp add: token_cancelled_def)
    ultimately show ?thesis using Cons.prems True
      by (simp add: text_of_def delivered_def cancelled_after_def forwarded_def split: option.splits)
  next
    case False
    then have nc: "\<not> token_cancelled c" using Cons.prems by (simp add: token_cancelled_def)
    show ?thesis
    proof (cases e)
      case (Progress p)
      let ?c1 = "widget_call (UpdateProgress (Some p)) c"
      let ?m1 = "if is_text p then msg @ content p else msg"
      have step: "progressCallback p (msg, c) = (?m1, ?c1)"
        using nc by (simp add: progressCallback_def is_text_def Let_def)
      have src1: "cancellationTokenSource ?c1 = Some src"
        using Cons.prems by (simp add: widget_call_def emit_def split: option.splits)
      have nc1: "\<not> token_cancelled ?c1" using src1 False by (simp add: token_cancelled_def)
      have raw1: "rawValue ?c1 = rawValue c"
        by (simp add: widget_call_def emit_def split: option.splits)
      have "invokeAgent (e # es) (msg, c) = invokeAgent es (?m1, ?c1)"
        using Progress step by simp
      also have "\<dots> = (?m1 @ text_of (delivered es ?c1),
         ?c1\<lparr>cancellationTokenSource :=
               Some (src\<lparr>isCancellationRequested := cancelled_after es ?c1\<rparr>),
             trace := trace ?c1 @ forwarded ?c1 (delivered es ?c1)\<rparr>)"
        by (rule Cons.IH[OF src1])
      finally show ?thesis using nc nc1 Progress raw1
        by (simp add: delivered_def cancelled_after_def text_of_def forwarded_def
            widget_call_def emit_def split: option.splits)
    next
      case CancelRequested
      let ?s1 = "src\<lparr>isCancellationRequested := True\<rparr>"
      let ?c1 = "c\<lparr>cancellationTokenSource := Some ?s1\<rparr>"
      have "invokeAgent (e # es) (msg, c) = invokeAgent es (msg, ?c1)"
        using CancelRequested Cons.prems by (simp add: cancel_def)
      also have "\<dots> = (msg, ?c1)"
        by (rule invokeAgent_cancelled[of _ ?s1]) simp_all
      finally show ?thesis using nc CancelRequested
        by (simp add: delivered_def cancelled_after_def text_of_def forwarded_def
            split: option.splits)
    qed
  qed
qed

lemma deliver_chunks:
  "\<not> token_cancelled c \<Longrightarrow>
   fst (invokeAgent (map Progress ps) (msg, c)) = msg @ text_of ps
   \<and> trace (snd (invokeAgent (map Progress ps) (msg, c))) = trace c @ forwarded c ps"
proof (induction ps arbitrary: msg c)
  case Nil
  then show ?case by (simp add: text_of_def forwarded_def split: option.splits)
next
  case (Cons p ps)
  let ?c1 = "widget_call (UpdateProgress (Some p)) c"
  let ?m1 = "if is_text p then msg @ content p else msg"
  have step: "progressCallback p (msg, c) = (?m1, ?c1)"
    using Cons.prems by (simp add: progressCallback_def is_text_def Let_def)
  have nc1: "\<not> token_cancelled ?c1" using Cons.prems by simp
  have fw: "forwarded ?c1 ps = forwarded c ps" by (simp add: forwarded_def)
  from Cons.IH[OF nc1, of ?m1] show ?case
    by (simp add: step fw trace_widget_call text_of_def forwarded_def split: option.splits)
qed

subsection \<open>The state at the await and after it\<close>

lemma acceptInput_unfold:
  assumes "ctxHasActiveRequest c = Some k" "cancellationTokenSource c = Some src"
  shows "acceptInput tokenize env c =
     (case invokeAgent (agent_events env) ([], at_await env c) of (msg, c) \<Rightarrow>
        (case agent_result env of Rejected \<Rightarrow> on_agent_error c
         | Resolved \<Rightarrow> classify tokenize (uuid_first env) msg c))"
  using assms
  by (auto simp add: acceptInput_def at_await_def set_HasActiveRequest_def emit_def
      split: prod.splits option.splits)

lemma at_await_fields:
  assumes "ctxHasActiveRequest c = Some k"
  shows "ctxHasActiveRequest (at_await env c) = Some (IContextKey (Some True))"
    and "ctxLastResponseType (at_await env c) = ctxLastResponseType c"
    and "ctxHasTerminalAgent (at_await env c) = ctxHasTerminalAgent c"
    and "cancellationTokenSource (at_await env c) = cancellationTokenSource c"
    and "accessibilityRequestId (at_await env c) = accessibilityRequestId c"
    and "lastLayoutDimensions (at_await env c) = lastLayoutDimensions c"
    and "rawValue (at_await env c) = map_option (\<lambda>w. w\<lparr>input_value := []\<rparr>) (rawValue c)"
    and "trace (at_await env c) = trace c @ request_events env c"
  using assms
  by (auto simp add: at_await_def build_request_def widget_input_def widget_setValue_def
      set_HasActiveRequest_def set_key_def emit_def rawValue_def request_events_def
      split: prod.splits option.splits Lazy.splits)

lemma token_cancelled_at_await:
  "ctxHasActiveRequest c = Some k \<Longrightarrow> token_cancelled (at_await env c) = token_cancelled c"
  by (simp add: token_cancelled_def at_await_fields)

lemma forwarded_at_await:
  "ctxHasActiveRequest c = Some k \<Longrightarrow> forwarded (at_await env c) ps = forwarded c ps"
  by (simp add: forwarded_def at_await_fields split: option.splits)

lemma invokeAgent_at_await:
  assumes "ctxHasActiveRequest c = Some k" "cancellationTokenSource c = Some src"
  shows "invokeAgent (agent_events env) ([], at_await env c) =
     (text_of (delivered (agent_events env) c),
      (at_await env c)
        \<lparr>cancellationTokenSource :=
           Some (src\<lparr>isCancellationRequested := cancelled_after (agent_events env) c\<rparr>),
         trace := trace c @ request_events env c @ forwarded c (delivered (agent_events env) c)\<rparr>)"
proof -
  have "cancellationTokenSource (at_await env c) = Some src"
    using assms by (simp add: at_await_fields)
  from invokeAgent_run[OF this, of "agent_events env" "[]"] show ?thesis
    using assms
    by (simp add: at_await_fields delivered_def cancelled_after_def token_cancelled_at_await
        forwarded_at_await)
qed

lemma after_agent_fields:
  assumes "ctxHasActiveRequest c = Some k" "cancellationTokenSource c = Some src"
  shows "ctxHasActiveRequest (after_agent env c) = Some (IContextKey (Some True))"
    and "ctxLastResponseType (after_agent env c) = ctxLastResponseType c"
    and "ctxHasTerminalAgent (after_agent env c) = ctxHasTerminalAgent c"
    and "accessibilityRequestId (after_agent env c) = accessibilityRequestId c"
    and "lastLayoutDimensions (after_agent env c) = lastLayoutDimensions c"
    and "rawValue (after_agent env c) = map_option (\<lambda>w. w\<lparr>input_value := []\<rparr>) (rawValue c)"
    and "token_cancelled (after_agent env c) = cancelled_after (agent_events env) c"
    and "trace (after_agent env c) =
           trace c @ request_events env c @ forwarded c (delivered (agent_events env) c)"
  using assms
  by (simp_all add: after_agent_def invokeAgent_at_await at_await_fields token_cancelled_def)

lemma acceptInput_after_agent:
  assumes "ctxHasActiveRequest c = Some k" "cancellationTokenSource c = Some src"
  shows "acceptInput tokenize env c =
     (case agent_result env of
        Rejected \<Rightarrow> on_agent_error (after_agent env c)
      | Resolved \<Rightarrow>
          classify tokenize (uuid_first env) (text_of (delivered (agent_events env) c))
            (after_agent env c))"
  using assms
  by (cases "agent_result env")
    (simp_all add: acceptInput_unfold after_agent_def invokeAgent_at_await)

subsection \<open>The ways out of \<^verbatim>\<open>acceptInput\<close>\<close>

lemma new_events_append [simp]: "trace c' = trace c @ xs \<Longrightarrow> new_events c c' = xs"
  by (simp add: new_events_def)

lemma on_agent_error_fields:
  assumes "ctxHasActiveRequest d = Some k"
  shows "fst (on_agent_error d) = Returned AgentFailed"
    and "ctxHasActiveRequest (snd (on_agent_error d)) = Some (IContextKey (Some False))"
    and "ctxLastResponseType (snd (on_agent_error d)) = ctxLastResponseType d"
    and "ctxHasTerminalAgent (snd (on_agent_error d)) = ctxHasTerminalAgent d"
    and "cancellationTokenSource (snd (on_agent_error d)) = cancellationTokenSource d"
    and "accessibilityRequestId (snd (on_agent_error d)) = accessibilityRequestId d"
    and "rawValue (snd (on_agent_error d)) = rawValue d"
    and "trace (snd (on_agent_error d)) = trace d @ finish_events d"
  using assms
  by (auto simp add: on_agent_error_def set_HasActiveRequest_def set_key_def widget_call_def
      emit_def finish_events_def rawValue_def split: option.splits Lazy.splits)

lemma classify_cancelled:
  assumes "token_cancelled d"
  shows "classify tokenize rid msg d =
           (Returned Cancelled, d\<lparr>accessibilityRequestId := accessibilityRequestId d + 1\<rparr>)"
  using assms by (simp add: classify_def Let_def token_cancelled_def)

lemma classify_command:
  assumes "\<not> token_cancelled d" "ctxHasActiveRequest d = Some k"
    "codeBlock_of (tokenize msg) = Some cb" "cb \<noteq> []"
  shows "fst (classify tokenize rid msg d) = Returned Command"
    and "ctxHasActiveRequest (snd (classify tokenize rid msg d)) = Some (IContextKey (Some False))"
    and "ctxLastResponseType (snd (classify tokenize rid msg d)) = ctxLastResponseType d"
    and "cancellationTokenSource (snd (classify tokenize rid msg d)) = cancellationTokenSource d"
    and "accessibilityRequestId (snd (classify tokenize rid msg d)) = accessibilityRequestId d + 1"
    and "rawValue (snd (classify tokenize rid msg d)) = rawValue d"
    and "trace (snd (classify tokenize rid msg d)) =
           trace d @ render_events d (RenderTerminalCommand cb (accessibilityRequestId d + 1))
             @ finish_events d"
  using assms
  by (auto simp add: classify_def Let_def token_cancelled_def truthy_def finish_def
      set_HasActiveRequest_def set_key_def widget_call_def emit_def finish_events_def
      render_events_def rawValue_def split: option.splits Lazy.splits)

lemma classify_message:
  assumes "\<not> token_cancelled d" "ctxHasActiveRequest d = Some k" "ctxLastResponseType d = Some k'"
    "\<not> truthy (codeBlock_of (tokenize msg))"
  shows "fst (classify tokenize rid msg d) = Returned Message"
    and "ctxHasActiveRequest (snd (classify tokenize rid msg d)) = Some (IContextKey (Some False))"
    and "ctxLastResponseType (snd (classify tokenize rid msg d)) = Some (IContextKey (Some OnlyMessages))"
    and "cancellationTokenSource (snd (classify tokenize rid msg d)) = cancellationTokenSource d"
    and "accessibilityRequestId (snd (classify tokenize rid msg d)) = accessibilityRequestId d + 1"
    and "rawValue (snd (classify tokenize rid msg d)) = rawValue d"
    and "trace (snd (classify tokenize rid msg d)) =
           trace d @ render_events d (RenderMessage msg (accessibilityRequestId d + 1) rid)
             @ SetLastResponseType OnlyMessages # finish_events d"
  using assms
  by (auto simp add: classify_def Let_def token_cancelled_def finish_def
      set_HasActiveRequest_def set_LastResponseType_def set_key_def widget_call_def emit_def
      finish_events_def render_events_def rawValue_def split: option.splits Lazy.splits)

lemma cancel_fields:
  assumes "initialized c"
  shows "fst (cancel c) = Returned ()" and "initialized (snd (cancel c))"
    and "token_cancelled (snd (cancel c))" and "trace (snd (cancel c)) = trace c"
  using assms
  by (auto simp add: cancel_def initialized_def token_cancelled_def split: option.splits)

subsection \<open>What the trace of a run contains\<close>

lemma is_render_simps [simp]:
  "is_render (RenderTerminalCommand t n)" "is_render (RenderMessage m n rid)"
  "\<not> is_render (SetLastResponseType v)" "\<not> is_render (SetHasActiveRequest b)"
  "\<not> is_render (UpdateProgress p)" "\<not> is_render AcceptRequest" "\<not> is_render Input"
  "\<not> is_render SetValue" "\<not> is_render (InvokeAgent rq)"
  by (simp_all add: is_render_def)

lemma is_progress_simps [simp]:
  "is_progress (UpdateProgress (Some p))" "\<not> is_progress (UpdateProgress None)"
  "\<not> is_progress (SetHasActiveRequest b)" "\<not> is_progress AcceptRequest"
  "\<not> is_progress Input" "\<not> is_progress SetValue" "\<not> is_progress (InvokeAgent rq)"
  by (simp_all add: is_progress_def)

lemma filter_render_request_events [simp]: "filter is_render (request_events env c) = []"
  by (simp add: request_events_def is_render_def split: option.splits)

lemma filter_render_forwarded [simp]: "filter is_render (forwarded c ps) = []"
  by (simp add: forwarded_def is_render_def split: option.splits)

lemma filter_render_finish_events [simp]: "filter is_render (finish_events c) = []"
  by (simp add: finish_events_def is_render_def split: option.splits)

lemma filter_progress_request_events [simp]: "filter is_progress (request_events env c) = []"
  by (simp add: request_events_def split: option.splits)

lemma filter_progress_finish_events [simp]: "filter is_progress (finish_events c) = []"
  by (simp add: finish_events_def split: option.splits)

lemma finish_events_not_Nil [simp]: "finish_events c \<noteq> []"
  by (simp add: finish_events_def)

lemma response_type_not_in_basic_events [simp]:
  "SetLastResponseType v \<notin> set (request_events env c)"
  "SetLastResponseType v \<notin> set (forwarded c ps)"
  "SetLastResponseType v \<notin> set (finish_events c)"
  "SetLastResponseType v \<notin> set (render_events c (RenderTerminalCommand t n))"
  "SetLastResponseType v \<notin> set (render_events c (RenderMessage m n rid))"
  by (auto simp add: request_events_def forwarded_def finish_events_def render_events_def
      split: option.splits)

lemma render_events_built: "rawValue c \<noteq> None \<Longrightarrow> render_events c e = [e]"
  by (auto simp add: render_events_def)

lemma no_widget_events [simp]:
  "rawValue c = None \<Longrightarrow> forwarded c ps = []"
  "rawValue c = None \<Longrightarrow> render_events c e = []"
  "rawValue c = None \<Longrightarrow> finish_events c = [SetHasActiveRequest False]"
  by (simp_all add: forwarded_def render_events_def finish_events_def)

lemma no_widget_request_events:
  "rawValue c = None \<Longrightarrow>
   request_events env c =
     [AcceptRequest, SetHasActiveRequest True, InvokeAgent (fst (build_request env c))]"
  by (simp add: request_events_def)

lemma finish_events_cong: "rawValue d = map_option f (rawValue c) \<Longrightarrow> finish_events d = finish_events c"
  by (simp add: finish_events_def split: option.splits)

lemma render_events_cong:
  "rawValue d = map_option f (rawValue c) \<Longrightarrow> render_events d e = render_events c e"
  by (simp add: render_events_def split: option.splits)

subsection \<open>A whole run, by outcome\<close>

lemma acceptInput_cancelled_fields:
  assumes "initialized c" and "agent_result env = Resolved"
    and "cancelled_after (agent_events env) c"
  shows "fst (acceptInput tokenize env c) = Returned Cancelled"
    and "ctxHasActiveRequest (snd (acceptInput tokenize env c)) = Some (IContextKey (Some True))"
    and "ctxLastResponseType (snd (acceptInput tokenize env c)) = ctxLastResponseType c"
    and "ctxHasTerminalAgent (snd (acceptInput tokenize env c)) = ctxHasTerminalAgent c"
    and "accessibilityRequestId (snd (acceptInput tokenize env c)) = accessibilityRequestId c + 1"
    and "token_cancelled (snd (acceptInput tokenize env c))"
    and "cancellationTokenSource (snd (acceptInput tokenize env c)) \<noteq> None"
    and "rawValue (snd (acceptInput tokenize env c)) =
           map_option (\<lambda>w. w\<lparr>input_value := []\<rparr>) (rawValue c)"
    and "trace (snd (acceptInput tokenize env c)) =
           trace c @ request_events env c @ forwarded c (delivered (agent_events env) c)"
proof -
  from assms(1) obtain k src where
    k: "ctxHasActiveRequest c = Some k" and src: "cancellationTokenSource c = Some src"
    by (auto simp add: initialized_def)
  let ?d = "after_agent env c"
  have tc: "token_cancelled ?d"
    using assms(3) by (simp add: after_agent_fields[OF k src])
  have r: "acceptInput tokenize env c =
      (Returned Cancelled, ?d\<lparr>accessibilityRequestId := accessibilityRequestId ?d + 1\<rparr>)"
    using assms(2) by (simp add: acceptInput_after_agent[OF k src] classify_cancelled[OF tc])
  show "fst (acceptInput tokenize env c) = Returned Cancelled"
    and "ctxHasActiveRequest (snd (acceptInput tokenize env c)) = Some (IContextKey (Some True))"
    and "ctxLastResponseType (snd (acceptInput tokenize env c)) = ctxLastResponseType c"
    and "ctxHasTerminalAgent (snd (acceptInput tokenize env c)) = ctxHasTerminalAgent c"
    and "accessibilityRequestId (snd (acceptInput tokenize env c)) = accessibilityRequestId c + 1"
    and "trace (snd (acceptInput tokenize env c)) =
           trace c @ request_events env c @ forwarded c (delivered (agent_events env) c)"
    by (simp_all add: r after_agent_fields[OF k src])
  have "cancellationTokenSource (?d\<lparr>accessibilityRequestId := accessibilityRequestId ?d + 1\<rparr>)
        = cancellationTokenSource ?d" by simp
  with tc show "token_cancelled (snd (acceptInput tokenize env c))"
    and "cancellationTokenSource (snd (acceptInput tokenize env c)) \<noteq> None"
    by (auto simp add: r token_cancelled_def split: option.splits)
  have "rawValue (?d\<lparr>accessibilityRequestId := accessibilityRequestId ?d + 1\<rparr>) = rawValue ?d"
    by (simp add: rawValue_def)
  then show "rawValue (snd (acceptInput tokenize env c)) =
           map_option (\<lambda>w. w\<lparr>input_value := []\<rparr>) (rawValue c)"
    by (simp add: r after_agent_fields[OF k src])
qed

lemma acceptInput_command_fields:
  assumes "initialized c" and "agent_result env = Resolved"
    and "\<not> cancelled_after (agent_events env) c"
    and "codeBlock_of (tokenize (buffer_of env c)) = Some cb" and "cb \<noteq> []"
  shows "fst (acceptInput tokenize env c) = Returned Command"
    and "ctxHasActiveRequest (snd (acceptInput tokenize env c)) = Some (IContextKey (Some False))"
    and "ctxLastResponseType (snd (acceptInput tokenize env c)) = ctxLastResponseType c"
    and "accessibilityRequestId (snd (acceptInput tokenize env c)) = accessibilityRequestId c + 1"
    and "trace (snd (acceptInput tokenize env c)) =
           trace c @ request_events env c @ forwarded c (delivered (agent_events env) c)
             @ render_events c (RenderTerminalCommand cb (accessibilityRequestId c + 1))
             @ finish_events c"
proof -
  from assms(1) obtain k src where
    k: "ctxHasActiveRequest c = Some k" and src: "cancellationTokenSource c = Some src"
    by (auto simp add: initialized_def)
  let ?d = "after_agent env c"
  have tc: "\<not> token_cancelled ?d"
    using assms(3) by (simp add: after_agent_fields[OF k src])
  have d: "ctxHasActiveRequest ?d = Some (IContextKey (Some True))"
    by (rule after_agent_fields[OF k src])
  have cb: "codeBlock_of (tokenize (text_of (delivered (agent_events env) c))) = Some cb"
    using assms(4) by (simp add: buffer_of_def)
  have r: "acceptInput tokenize env c =
      classify tokenize (uuid_first env) (text_of (delivered (agent_events env) c)) ?d"
    using assms(2) by (simp add: acceptInput_after_agent[OF k src])
  note f = classify_command[where tokenize = tokenize
      and msg = "text_of (delivered (agent_events env) c)" and rid = "uuid_first env",
      OF tc d cb assms(5)]
  note raw = after_agent_fields(6)[OF k src, of env]
  show "fst (acceptInput tokenize env c) = Returned Command"
    and "ctxHasActiveRequest (snd (acceptInput tokenize env c)) = Some (IContextKey (Some False))"
    and "ctxLastResponseType (snd (acceptInput tokenize env c)) = ctxLastResponseType c"
    and "accessibilityRequestId (snd (acceptInput tokenize env c)) = accessibilityRequestId c + 1"
    and "trace (snd (acceptInput tokenize env c)) =
           trace c @ request_events env c @ forwarded c (delivered (agent_events env) c)
             @ render_events c (RenderTerminalCommand cb (accessibilityRequestId c + 1))
             @ finish_events c"
    by (simp_all add: r f after_agent_fields[OF k src] finish_events_cong[OF raw]
        render_events_cong[OF raw])
qed

lemma acceptInput_message_fields:
  assumes "initialized c" and "agent_result env = Resolved"
    and "\<not> cancelled_after (agent_events env) c"
    and "\<not> truthy (codeBlock_of (tokenize (buffer_of env c)))"
  shows "fst (acceptInput tokenize env c) = Returned Message"
    and "ctxHasActiveRequest (snd (acceptInput tokenize env c)) = Some (IContextKey (Some False))"
    and "ctxLastResponseType (snd (acceptInput tokenize env c)) =
           Some (IContextKey (Some OnlyMessages))"
    and "accessibilityRequestId (snd (acceptInput tokenize env c)) = accessibilityRequestId c + 1"
    and "trace (snd (acceptInput tokenize env c)) =
           trace c @ request_events env c @ forwarded c (delivered (agent_events env) c)
             @ render_events c
                 (RenderMessage (buffer_of env c) (accessibilityRequestId c + 1) (uuid_first env))
             @ SetLastResponseType OnlyMessages # finish_events c"
proof -
  from assms(1) obtain k src k' where
    k: "ctxHasActiveRequest c = Some k" and src: "cancellationTokenSource c = Some src"
    and k': "ctxLastResponseType c = Some k'"
    by (auto simp add: initialized_def)
  let ?d = "after_agent env c"
  have tc: "\<not> token_cancelled ?d"
    using assms(3) by (simp add: after_agent_fields[OF k src])
  have d: "ctxHasActiveRequest ?d = Some (IContextKey (Some True))"
    by (rule after_agent_fields[OF k src])
  have d': "ctxLastResponseType ?d = Some k'"
    using k' by (simp add: after_agent_fields[OF k src])
  have cb: "\<not> truthy (codeBlock_of (tokenize (text_of (delivered (agent_events env) c))))"
    using assms(4) by (simp add: buffer_of_def)
  have r: "acceptInput tokenize env c =
      classify tokenize (uuid_first env) (text_of (delivered (agent_events env) c)) ?d"
    using assms(2) by (simp add: acceptInput_after_agent[OF k src])
  note f = classify_message[where tokenize = tokenize
      and msg = "text_of (delivered (agent_events env) c)" and rid = "uuid_first env",
      OF tc d d' cb]
  note raw = after_agent_fields(6)[OF k src, of env]
  show "fst (acceptInput tokenize env c) = Returned Message"
    and "ctxHasActiveRequest (snd (acceptInput tokenize env c)) = Some (IContextKey (Some False))"
    and "ctxLastResponseType (snd (acceptInput tokenize env c)) =
           Some (IContextKey (Some OnlyMessages))"
    and "accessibilityRequestId (snd (acceptInput tokenize env c)) = accessibilityRequestId c + 1"
    and "trace (snd (acceptInput tokenize env c)) =
           trace c @ request_events env c @ forwarded c (delivered (agent_events env) c)
             @ render_events c
                 (RenderMessage (buffer_of env c) (accessibilityRequestId c + 1) (uuid_first env))
             @ SetLastResponseType OnlyMessages # finish_events c"
    by (simp_all add: r f after_agent_fields[OF k src] finish_events_cong[OF raw]
        render_events_cong[OF raw] buffer_of_def)
qed

lemma acceptInput_failed_fields:
  assumes "initialized c" and "agent_result env = Rejected"
  shows "fst (acceptInput tokenize env c) = Returned AgentFailed"
    and "ctxHasActiveRequest (snd (acceptInput tokenize env c)) = Some (IContextKey (Some False))"
    and "ctxLastResponseType (snd (acceptInput tokenize env c)) = ctxLastResponseType c"
    and "accessibilityRequestId (snd (acceptInput tokenize env c)) = accessibilityRequestId c"
    and "cancellationTokenSource (snd (acceptInput tokenize env c)) \<noteq> None"
    and "token_cancelled (snd (acceptInput tokenize env c)) = cancelled_after (agent_events env) c"
    and "trace (snd (acceptInput tokenize env c)) =
           trace c @ request_events env c @ forwarded c (delivered (agent_events env) c)
             @ finish_events c"
proof -
  from assms(1) obtain k src where
    k: "ctxHasActiveRequest c = Some k" and src: "cancellationTokenSource c = Some src"
    by (auto simp add: initialized_def)
  let ?d = "after_agent env c"
  have r: "acceptInput tokenize env c = on_agent_error ?d"
    using assms(2) by (simp add: acceptInput_after_agent[OF k src])
  have d: "ctxHasActiveRequest ?d = Some (IContextKey (Some True))"
    by (rule after_agent_fields[OF k src])
  note raw = after_agent_fields(6)[OF k src, of env]
  note f = on_agent_error_fields[OF d]
  show "fst (acceptInput tokenize env c) = Returned AgentFailed"
    and "ctxHasActiveRequest (snd (acceptInput tokenize env c)) = Some (IContextKey (Some False))"
    and "ctxLastResponseType (snd (acceptInput tokenize env c)) = ctxLastResponseType c"
    and "accessibilityRequestId (snd (acceptInput tokenize env c)) = accessibilityRequestId c"
    and "trace (snd (acceptInput tokenize env c)) =
           trace c @ request_events env c @ forwarded c (delivered (agent_events env) c)
             @ finish_events c"
    by (simp_all add: r f after_agent_fields[OF k src] finish_events_cong[OF raw])
  have tc: "token_cancelled (snd (on_agent_error ?d)) = token_cancelled ?d"
    by (simp add: token_cancelled_def f)
  show "token_cancelled (snd (acceptInput tokenize env c)) = cancelled_after (agent_events env) c"
    by (simp add: r tc after_agent_fields[OF k src])
  have "cancellationTokenSource ?d \<noteq> None"
    using src by (simp add: after_agent_def invokeAgent_at_await[OF k src])
  then show "cancellationTokenSource (snd (acceptInput tokenize env c)) \<noteq> None"
    by (simp add: r f)
qed

lemma command_run_renders:
  assumes "initialized c" and "agent_result env = Resolved"
    and "\<not> cancelled_after (agent_events env) c"
    and "codeBlock_of (tokenize (buffer_of env c)) = Some cb" and "cb \<noteq> []"
  shows "filter is_render (new_events c (snd (acceptInput tokenize env c))) =
           render_events c (RenderTerminalCommand cb (accessibilityRequestId c + 1))"
    and "SetLastResponseType v \<notin> set (new_events c (snd (acceptInput tokenize env c)))"
proof -
  note f = acceptInput_command_fields[where tokenize = tokenize, OF assms]
  have ne: "new_events c (snd (acceptInput tokenize env c)) =
      request_events env c @ forwarded c (delivered (agent_events env) c)
        @ render_events c (RenderTerminalCommand cb (accessibilityRequestId c + 1))
        @ finish_events c"
    by (rule new_events_append[OF f(5)])
  show "filter is_render (new_events c (snd (acceptInput tokenize env c))) =
           render_events c (RenderTerminalCommand cb (accessibilityRequestId c + 1))"
    by (simp add: ne render_events_def split: option.splits)
  show "SetLastResponseType v \<notin> set (new_events c (snd (acceptInput tokenize env c)))"
    by (simp add: ne)
qed

lemma message_run_renders:
  assumes "initialized c" and "agent_result env = Resolved"
    and "\<not> cancelled_after (agent_events env) c"
    and "\<not> truthy (codeBlock_of (tokenize (buffer_of env c)))"
  shows "filter is_render (new_events c (snd (acceptInput tokenize env c))) =
           render_events c
             (RenderMessage (buffer_of env c) (accessibilityRequestId c + 1) (uuid_first env))"
    and "SetLastResponseType OnlyMessages \<in> set (new_events c (snd (acceptInput tokenize env c)))"
proof -
  note f = acceptInput_message_fields[where tokenize = tokenize, OF assms]
  have ne: "new_events c (snd (acceptInput tokenize env c)) =
      request_events env c @ forwarded c (delivered (agent_events env) c)
        @ render_events c
            (RenderMessage (buffer_of env c) (accessibilityRequestId c + 1) (uuid_first env))
        @ SetLastResponseType OnlyMessages # finish_events c"
    by (rule new_events_append[OF f(5)])
  show "filter is_render (new_events c (snd (acceptInput tokenize env c))) =
           render_events c
             (RenderMessage (buffer_of env c) (accessibilityRequestId c + 1) (uuid_first env))"
    by (simp add: ne render_events_def split: option.splits)
  show "SetLastResponseType OnlyMessages \<in> set (new_events c (snd (acceptInput tokenize env c)))"
    by (simp add: ne)
qed

lemma failed_run_events:
  assumes "initialized c" and "agent_result env = Rejected"
  shows "new_events c (snd (acceptInput tokenize env c)) =
           request_events env c @ forwarded c (delivered (agent_events env) c) @ finish_events c"
  by (rule new_events_append[OF acceptInput_failed_fields(7)[OF assms]])

lemma cancelled_run_events:
  assumes "initialized c" and "agent_result env = Resolved"
    and "cancelled_after (agent_events env) c"
  shows "new_events c (snd (acceptInput tokenize env c)) =
           request_events env c @ forwarded c (delivered (agent_events env) c)"
  by (rule new_events_append[OF acceptInput_cancelled_fields(9)[OF assms]])

lemma acceptInput_when_cancelled:
  assumes "initialized c" and "token_cancelled c"
  shows "fst (acceptInput tokenize env c) =
           Returned (case agent_result env of Rejected \<Rightarrow> AgentFailed | Resolved \<Rightarrow> Cancelled)"
    and "initialized (snd (acceptInput tokenize env c))"
    and "cancellationTokenSource (snd (acceptInput tokenize env c)) = cancellationTokenSource c"
    and "trace (snd (acceptInput tokenize env c)) =
           trace c @ request_events env c
             @ (case agent_result env of Rejected \<Rightarrow> finish_events c | Resolved \<Rightarrow> [])"
proof -
  from assms(1) obtain k src a l where
    k: "ctxHasActiveRequest c = Some k" and src: "cancellationTokenSource c = Some src"
    and a: "ctxHasTerminalAgent c = Some a" and l: "ctxLastResponseType c = Some l"
    by (auto simp add: initialized_def)
  from assms(2) src have flag: "isCancellationRequested src"
    by (simp add: token_cancelled_def)
  have src': "cancellationTokenSource (at_await env c) = Some src"
    using src by (simp add: at_await_fields[OF k])
  have d: "after_agent env c = at_await env c"
    by (simp add: after_agent_def invokeAgent_cancelled[OF src' flag])
  have kd: "ctxHasActiveRequest (at_await env c) = Some (IContextKey (Some True))"
    by (rule at_await_fields[OF k])
  have tc: "token_cancelled (at_await env c)"
    using assms(2) by (simp add: token_cancelled_at_await[OF k])
  note raw = at_await_fields(7)[OF k, of env]
  show "fst (acceptInput tokenize env c) =
           Returned (case agent_result env of Rejected \<Rightarrow> AgentFailed | Resolved \<Rightarrow> Cancelled)"
    and "initialized (snd (acceptInput tokenize env c))"
    and "cancellationTokenSource (snd (acceptInput tokenize env c)) = cancellationTokenSource c"
    and "trace (snd (acceptInput tokenize env c)) =
           trace c @ request_events env c
             @ (case agent_result env of Rejected \<Rightarrow> finish_events c | Resolved \<Rightarrow> [])"
    using a l src
    by (cases "agent_result env";
        simp add: acceptInput_after_agent[OF k src] d classify_cancelled[OF tc]
          on_agent_error_fields[OF kd] at_await_fields[OF k] initialized_def
          finish_events_cong[OF raw])+
qed

lemma acceptInputs_when_cancelled:
  assumes "initialized c" and "token_cancelled c"
  shows "fst (acceptInputs tokenize envs c) =
           map (\<lambda>env. Returned (case agent_result env of
                                   Rejected \<Rightarrow> AgentFailed | Resolved \<Rightarrow> Cancelled)) envs
       \<and> initialized (snd (acceptInputs tokenize envs c))
       \<and> cancellationTokenSource (snd (acceptInputs tokenize envs c)) = cancellationTokenSource c
       \<and> (\<exists>xs. trace (snd (acceptInputs tokenize envs c)) = trace c @ xs
              \<and> filter is_render xs = [] \<and> filter is_progress xs = [])"
  using assms
proof (induction envs arbitrary: c)
  case Nil
  then show ?case by simp
next
  case (Cons env envs)
  let ?c1 = "snd (acceptInput tokenize env c)"
  note f = acceptInput_when_cancelled[OF Cons.prems, of tokenize env]
  have tc1: "token_cancelled ?c1"
    using Cons.prems(2) f(3) by (simp add: token_cancelled_def)
  note ih = Cons.IH[OF f(2) tc1]
  let ?c2 = "snd (acceptInputs tokenize envs ?c1)"
  let ?xs = "request_events env c
             @ (case agent_result env of Rejected \<Rightarrow> finish_events c | Resolved \<Rightarrow> [])"
  have run: "acceptInputs tokenize (env # envs) c =
      (fst (acceptInput tokenize env c) # fst (acceptInputs tokenize envs ?c1), ?c2)"
    by (simp add: split_beta)
  from ih obtain ys where ys: "trace ?c2 = trace ?c1 @ ys"
    "filter is_render ys = []" "filter is_progress ys = []"
    by blast
  have xs: "filter is_render ?xs = []" "filter is_progress ?xs = []"
    by (simp_all split: agent_result.splits)
  have "trace ?c2 = trace c @ (?xs @ ys)"
    using ys(1) f(4) by simp
  moreover have "filter is_render (?xs @ ys) = []" "filter is_progress (?xs @ ys) = []"
    using xs ys by simp_all
  ultimately have "\<exists>zs. trace ?c2 = trace c @ zs
      \<and> filter is_render zs = [] \<and> filter is_progress zs = []"
    by blast
  with ih f show ?case
    unfolding run by simp
qed

subsection \<open>Stripping the fence markers\<close>

lemma fence_backticks: "fence = [backtick, backtick, backtick]"
  by (simp add: fence_def backtick_def)

lemma startsWith_fence:
  "startsWith s fence \<longleftrightarrow> (\<exists>r. s = backtick # backtick # backtick # r)"
proof
  assume "startsWith s fence"
  then have "take (length fence) s = fence"
    by (simp add: startsWith_def)
  then have "s = fence @ drop (length fence) s"
    by (metis append_take_drop_id)
  then show "\<exists>r. s = backtick # backtick # backtick # r"
    unfolding fence_backticks by auto
next
  assume "\<exists>r. s = backtick # backtick # backtick # r"
  then show "startsWith s fence" by (auto simp add: startsWith_def fence_backticks)
qed

lemma fence_not_Nil [simp]: "fence \<noteq> []"
  by (simp add: fence_def)

lemma length_fence [simp]: "length fence = 3"
  by (simp add: fence_def)

lemma strip_Nil [simp]: "replaceAll fence [] [] = []"
  by (simp add: replaceAll.simps)

lemma strip_fence:
  "replaceAll fence [] (backtick # backtick # backtick # r) = replaceAll fence [] r"
  by (simp add: replaceAll.simps(2)[of fence "[]" backtick] startsWith_fence)

lemma strip_other:
  "\<not> startsWith (c # cs) fence \<Longrightarrow> replaceAll fence [] (c # cs) = c # replaceAll fence [] cs"
  by (simp add: replaceAll.simps(2)[of fence "[]" c cs])

lemma strip_starts_with_backtick:
  "replaceAll fence [] s = backtick # r \<Longrightarrow> \<exists>s'. s = backtick # s'"
proof (cases s)
  case Nil
  then show "replaceAll fence [] s = backtick # r \<Longrightarrow> ?thesis" by simp
next
  case (Cons c cs)
  assume r: "replaceAll fence [] s = backtick # r"
  show ?thesis
  proof (cases "startsWith (c # cs) fence")
    case True
    then show ?thesis using Cons by (auto simp add: startsWith_fence)
  next
    case False
    with r Cons show ?thesis by (simp add: strip_other)
  qed
qed

lemma strip_starts_with_two_backticks:
  assumes "replaceAll fence [] s = backtick # backtick # r"
  shows "\<exists>s'. s = backtick # backtick # s'"
proof (cases s)
  case Nil
  with assms show ?thesis by simp
next
  case (Cons c cs)
  show ?thesis
  proof (cases "startsWith (c # cs) fence")
    case True
    then show ?thesis using Cons by (auto simp add: startsWith_fence)
  next
    case False
    with assms Cons have "c = backtick" "replaceAll fence [] cs = backtick # r"
      by (simp_all add: strip_other)
    with strip_starts_with_backtick[of cs r] Cons show ?thesis by auto
  qed
qed

lemma strip_leaves_no_fence: "\<not> includes_str (replaceAll fence [] s) fence"
proof (induction s rule: length_induct)
  case (1 s)
  show ?case
  proof (cases s)
    case Nil
    then show ?thesis by simp
  next
    case (Cons c cs)
    show ?thesis
    proof (cases "startsWith (c # cs) fence")
      case True
      then obtain r where r: "s = backtick # backtick # backtick # r"
        using Cons by (auto simp add: startsWith_fence)
      then have "length r < length s" by simp
      with 1 have "\<not> includes_str (replaceAll fence [] r) fence" by blast
      then show ?thesis by (simp add: r strip_fence)
    next
      case False
      have ih: "\<not> includes_str (replaceAll fence [] cs) fence"
        using 1 Cons by simp
      have "\<not> startsWith (c # replaceAll fence [] cs) fence"
      proof
        assume "startsWith (c # replaceAll fence [] cs) fence"
        then obtain r where "c = backtick" "replaceAll fence [] cs = backtick # backtick # r"
          by (auto simp add: startsWith_fence)
        with strip_starts_with_two_backticks[of cs r] have "startsWith (c # cs) fence"
          by (auto simp add: startsWith_fence)
        with False show False by simp
      qed
      with ih show ?thesis
        using Cons False by (simp add: strip_other)
    qed
  qed
qed

lemma strip_leading_fence: "replaceAll fence [] (fence @ r) = replaceAll fence [] r"
  using strip_fence[of r] by (simp add: fence_backticks)

lemma strip_no_backtick:
  "backtick \<notin> set body \<Longrightarrow> replaceAll fence [] (body @ fence) = body"
proof (induction body)
  case Nil
  show ?case using strip_leading_fence[of "[]"] by simp
next
  case (Cons c body)
  then have "\<not> startsWith (c # body @ fence) fence"
    by (auto simp add: startsWith_fence)
  with Cons show ?case by (simp add: strip_other)
qed

lemma strip_fenced:
  "backtick \<notin> set body \<Longrightarrow> replaceAll fence [] (fence @ body @ fence) = body"
  by (simp add: strip_leading_fence strip_no_backtick)

lemma codeBlock_of_first:
  "filter (\<lambda>t. token_type t = ''code'') tokens = t # ts \<Longrightarrow>
   codeBlock_of tokens = Some (replaceAll fence [] (raw t))"
  by (simp add: codeBlock_of_def)

lemma codeBlock_of_none:
  "filter (\<lambda>t. token_type t = ''code'') tokens = [] \<Longrightarrow> codeBlock_of tokens = None"
  by (simp add: codeBlock_of_def)

subsection \<open>The lexer\<close>

lemma split_fence_first:
  "backtick \<notin> set pre \<Longrightarrow> split_fence (pre @ fence @ rest) = Some (pre, rest)"
proof (induction pre)
  case Nil
  have "startsWith (fence @ rest) fence" by (simp add: startsWith_def)
  then show ?case by (cases "fence @ rest") (simp_all add: fence_def)
next
  case (Cons c pre)
  then have "\<not> startsWith (c # pre @ fence @ rest) fence"
    by (auto simp add: startsWith_fence)
  with Cons show ?case by simp
qed

lemma split_fence_None: "\<not> includes_str s fence \<Longrightarrow> split_fence s = None"
  by (induction s) simp_all

lemma filter_code_text_token [simp]:
  "filter (\<lambda>t. token_type t = ''code'') (text_token s) = []"
  by (simp add: text_token_def)

lemma lexer_plain: "\<not> includes_str s fence \<Longrightarrow> lexer s = text_token s"
  by (simp add: lexer.simps[of s] split_fence_None)

lemma lexer_fenced:
  assumes "backtick \<notin> set pre" and "backtick \<notin> set body"
  shows "lexer (pre @ fence @ body @ fence @ post) =
           text_token pre @ \<lparr>token_type = ''code'', raw = fence @ body @ fence\<rparr> # lexer post"
  by (simp add: lexer.simps[of "pre @ fence @ body @ fence @ post"]
      split_fence_first[OF assms(1)] split_fence_first[OF assms(2)])

lemma codeBlock_fenced:
  assumes "backtick \<notin> set pre" and "backtick \<notin> set body"
  shows "codeBlock_of (lexer (pre @ fence @ body @ fence @ post)) = Some body"
proof -
  have "codeBlock_of (lexer (pre @ fence @ body @ fence @ post)) =
      Some (replaceAll fence [] (fence @ body @ fence))"
    by (simp add: lexer_fenced[OF assms] codeBlock_of_def)
  then show ?thesis by (simp only: strip_fenced[OF assms(2)])
qed

subsection \<open>The concrete inputs\<close>

lemma example_controller_eq:
  "example_controller =
     \<lparr>chatWidget = Some (Value \<lparr>input_value = ''list files''\<rparr>), lastLayoutDimensions = None,
      accessibilityRequestId = 0, ctxHasActiveRequest = Some (IContextKey None),
      ctxHasTerminalAgent = Some (IContextKey (Some True)),
      ctxLastResponseType = Some (IContextKey None),
      cancellationTokenSource = Some \<lparr>isCancellationRequested = False\<rparr>,
      trace = [SetHasTerminalAgent True, CreateInstance]\<rparr>"
  by (simp add: example_controller_def example_widget_def get_chatWidget_def xtermReady_def
      constructor_def unassigned_def emit_def Let_def)

lemma initialized_example [simp]: "initialized example_controller"
  by (simp add: example_controller_eq initialized_def)

lemma rawValue_example [simp]: "rawValue example_controller = Some \<lparr>input_value = ''list files''\<rparr>"
  by (simp add: example_controller_eq rawValue_def)

lemma not_cancelled_example [simp]: "\<not> token_cancelled example_controller"
  by (simp add: example_controller_eq token_cancelled_def)

lemma no_cancel_example [simp]:
  "cancelled_after es example_controller \<longleftrightarrow> CancelRequested \<in> set es"
  by (simp add: cancelled_after_def)

lemma example_env_simps [simp]:
  "agent_result (example_env es r) = r" "agent_events (example_env es r) = es"
  "uuid_first (example_env es r) = ''request-1''" "uuid_second (example_env es r) = ''session-1''"
  by (simp_all add: example_env_def)

lemma buffer_of_example [simp]:
  "buffer_of (example_env es r) example_controller = text_of (chunks_before_cancel es)"
  by (simp add: buffer_of_def delivered_def)

lemma accessibilityRequestId_example [simp]: "accessibilityRequestId example_controller = 0"
  by (simp add: example_controller_eq)

lemma ctxLastResponseType_example [simp]:
  "ctxLastResponseType example_controller = Some (IContextKey None)"
  by (simp add: example_controller_eq)

lemma text_of_command_chunks: "text_of (chunks_before_cancel command_chunks) = ''```echo hi```''"
  by (simp add: command_chunks_def chunk_def text_of_def is_text_def)

lemma no_cancel_command_chunks [simp]: "CancelRequested \<notin> set command_chunks"
  by (simp add: command_chunks_def chunk_def)

lemma codeBlock_echo_hi: "codeBlock_of (lexer ''```echo hi```'') = Some ''echo hi''"
  by code_simp

lemma echo_hi_fenced: "''```echo hi```'' = [] @ fence @ ''echo hi'' @ fence @ []"
  by (simp add: fence_def)

lemma no_backtick_in_echo_hi: "backtick \<notin> set ''echo hi''"
  by (simp add: backtick_def)

lemma text_of_empty_block_chunks:
  "text_of (chunks_before_cancel empty_block_chunks) = ''``````''"
  by (simp add: empty_block_chunks_def chunk_def text_of_def is_text_def)

lemma no_cancel_empty_block_chunks [simp]: "CancelRequested \<notin> set empty_block_chunks"
  by (simp add: empty_block_chunks_def chunk_def)

lemma codeBlock_fences_only: "codeBlock_of (lexer ''``````'') = Some []"
  by code_simp

lemma cancel_in_cancelled_chunks [simp]: "CancelRequested \<in> set cancelled_chunks"
  by (simp add: cancelled_chunks_def)

lemma strip_bash: "replaceAll fence [] (fence @ bash_text @ fence) = bash_text"
  by code_simp

lemma bash_text_begins_with_info_string: "take 4 bash_text = ''bash''"
  by code_simp

lemma text_of_bash_chunks:
  "text_of (chunks_before_cancel bash_chunks) = fence @ bash_text @ fence"
  by code_simp

lemma no_cancel_bash_chunks [simp]: "CancelRequested \<notin> set bash_chunks"
  by (simp add: bash_chunks_def chunk_def)

lemma lexer_bash:
  "filter (\<lambda>t. token_type t = ''code'') (lexer (fence @ bash_text @ fence))
     = [\<lparr>token_type = ''code'', raw = fence @ bash_text @ fence\<rparr>]"
  by code_simp

lemma bash_text_not_Nil [simp]: "bash_text \<noteq> []"
  by (simp add: bash_text_def)

lemma text_of_plain_chunks: "text_of (chunks_before_cancel plain_chunks) = ''no code here''"
  by (simp add: plain_chunks_def chunk_def text_of_def is_text_def)

lemma no_cancel_plain_chunks [simp]: "CancelRequested \<notin> set plain_chunks"
  by (simp add: plain_chunks_def chunk_def)

lemma no_fence_in_plain: "\<not> includes_str ''no code here'' fence"
  by code_simp

lemma lexer_plain_chunks:
  "filter (\<lambda>t. token_type t = ''code'') (lexer ''no code here'') = []"
  by code_simp

subsection \<open>The properties of the specification\<close>

text \<open>
  C1. When the cancellation token is signalled before the classification step (it was
  cancelled when the call began, or \<^verbatim>\<open>cancel()\<close> ran during the invocation) and the
  invocation resolves, \<^verbatim>\<open>acceptInput\<close> returns on line 160: no render call is made,
  as the specification says; but the active-request flag is not cleared:
  \<^verbatim>\<open>set(false)\<close> is never called and the flag still holds \<^verbatim>\<open>true\<close> when the call returns. The other two
  ways out, the \<^verbatim>\<open>catch\<close> block and the end of the function, both clear it.
\<close>

theorem cancelled_request_stays_active:
  assumes "initialized c" and "agent_result env = Resolved"
    and "cancelled_after (agent_events env) c"
  shows "(let r = acceptInput tokenize env c in
            fst r = Returned Cancelled
          \<and> filter is_render (new_events c (snd r)) = []
          \<and> SetHasActiveRequest False \<notin> set (new_events c (snd r))
          \<and> ctxHasActiveRequest (snd r) = Some (IContextKey (Some True)))"
proof -
  note f = acceptInput_cancelled_fields[where tokenize = tokenize, OF assms]
  note ne = cancelled_run_events[where tokenize = tokenize, OF assms]
  have "SetHasActiveRequest False \<notin> set (request_events env c)"
    "SetHasActiveRequest False \<notin> set (forwarded c (delivered (agent_events env) c))"
    by (auto simp add: request_events_def forwarded_def split: option.splits)
  then show ?thesis
    by (simp add: Let_def f ne)
qed

theorem cancelled_request_stays_active_witness:
  "initialized example_controller
   \<and> agent_result (example_env cancelled_chunks Resolved) = Resolved
   \<and> cancelled_after (agent_events (example_env cancelled_chunks Resolved)) example_controller
   \<and> (let r = acceptInput lexer (example_env cancelled_chunks Resolved) example_controller in
            fst r = Returned Cancelled
          \<and> filter is_render (new_events example_controller (snd r)) = []
          \<and> SetHasActiveRequest False \<notin> set (new_events example_controller (snd r))
          \<and> ctxHasActiveRequest (snd r) = Some (IContextKey (Some True)))"
  using cancelled_request_stays_active[of example_controller
      "example_env cancelled_chunks Resolved" lexer]
  by (simp add: Let_def)

text \<open>
  C2. \<^verbatim>\<open>cancel()\<close> raises the flag of the controller's only cancellation token
  source, and nothing ever replaces that source. So after one \<^verbatim>\<open>cancel()\<close>, in every
  later call of \<^verbatim>\<open>acceptInput\<close>, however many there are: the token is the same,
  cancelled one; the progress callback leaves every buffer as it is and forwards no
  chunk; no command and no message is rendered; and the call returns at the
  cancellation check of line 159 when the invocation resolves. When the invocation
  raises, the call returns from the \<^verbatim>\<open>catch\<close> block instead, which the
  specification does not allow for.
\<close>

theorem cancelled_token_is_reused:
  assumes "initialized c"
  shows "(let c1 = snd (cancel c); r = acceptInputs tokenize envs c1 in
            fst (cancel c) = Returned ()
          \<and> fst r = map (\<lambda>env. Returned (case agent_result env of
                                            Rejected \<Rightarrow> AgentFailed | Resolved \<Rightarrow> Cancelled)) envs
          \<and> cancellationTokenSource (snd r) = cancellationTokenSource c1
          \<and> token_cancelled (snd r)
          \<and> (\<forall>es msg. invokeAgent es (msg, snd r) = (msg, snd r))
          \<and> filter is_progress (new_events c1 (snd r)) = []
          \<and> filter is_render (new_events c1 (snd r)) = [])"
proof -
  let ?c1 = "snd (cancel c)"
  note cf = cancel_fields[OF assms]
  note f = acceptInputs_when_cancelled[OF cf(2) cf(3), of tokenize envs]
  let ?c2 = "snd (acceptInputs tokenize envs ?c1)"
  from f obtain xs where xs: "trace ?c2 = trace ?c1 @ xs"
    "filter is_render xs = []" "filter is_progress xs = []"
    by blast
  have ne: "new_events ?c1 ?c2 = xs" by (rule new_events_append[OF xs(1)])
  have tc: "token_cancelled ?c2"
    using f cf(3) by (simp add: token_cancelled_def)
  then obtain src where src: "cancellationTokenSource ?c2 = Some src" "isCancellationRequested src"
    by (auto simp add: token_cancelled_def split: option.splits)
  have "\<And>es msg. invokeAgent es (msg, ?c2) = (msg, ?c2)"
    by (rule invokeAgent_cancelled[OF src])
  then show ?thesis
    using f cf(1) tc xs ne by (simp add: Let_def)
qed

theorem cancelled_token_is_reused_witness:
  "initialized example_controller
   \<and> (let c1 = snd (cancel example_controller);
           r = acceptInputs lexer
                 [example_env command_chunks Resolved, example_env command_chunks Rejected,
                  example_env command_chunks Resolved] c1 in
            fst (cancel example_controller) = Returned ()
          \<and> fst r = [Returned Cancelled, Returned AgentFailed, Returned Cancelled]
          \<and> cancellationTokenSource (snd r) = cancellationTokenSource c1
          \<and> token_cancelled (snd r)
          \<and> (\<forall>es msg. invokeAgent es (msg, snd r) = (msg, snd r))
          \<and> filter is_progress (new_events c1 (snd r)) = []
          \<and> filter is_render (new_events c1 (snd r)) = [])"
  using cancelled_token_is_reused[of example_controller lexer
      "[example_env command_chunks Resolved, example_env command_chunks Rejected,
        example_env command_chunks Resolved]"]
  by (simp add: Let_def)

theorem cancelled_then_agent_error_counterexample:
  "fst (cancel example_controller) = Returned ()
   \<and> agent_result (example_env command_chunks Rejected) = Rejected
   \<and> fst (acceptInput lexer (example_env command_chunks Rejected) (snd (cancel example_controller)))
       \<noteq> Returned Cancelled"
  using cancel_fields[OF initialized_example]
    acceptInput_when_cancelled(1)[of "snd (cancel example_controller)" lexer
      "example_env command_chunks Rejected"]
  by simp

text \<open>
  C3. The accessibility-request counter is incremented exactly once by every call of
  \<^verbatim>\<open>acceptInput\<close> whose agent invocation resolves, whatever the outcome: command,
  message, or cancelled, the increment coming before the cancellation check. When the
  agent invocation raises, the \<^verbatim>\<open>catch\<close> block returns before line 158 and the
  counter keeps its value, which the specification does not allow for.
\<close>

theorem counter_incremented_once:
  assumes "initialized c"
  shows "(let r = acceptInput tokenize env c;
              cb = codeBlock_of (tokenize (buffer_of env c))
          in (agent_result env = Resolved \<longrightarrow>
                accessibilityRequestId (snd r) = accessibilityRequestId c + 1
              \<and> fst r = Returned (if cancelled_after (agent_events env) c then Cancelled
                                    else if truthy cb then Command else Message))
           \<and> (agent_result env = Rejected \<longrightarrow>
                accessibilityRequestId (snd r) = accessibilityRequestId c
              \<and> fst r = Returned AgentFailed))"
proof (cases "agent_result env")
  case Rejected
  then show ?thesis
    by (simp add: Let_def acceptInput_failed_fields[OF assms Rejected])
next
  case Resolved
  show ?thesis
  proof (cases "cancelled_after (agent_events env) c")
    case True
    with Resolved show ?thesis
      by (simp add: Let_def acceptInput_cancelled_fields[OF assms Resolved True])
  next
    case False
    show ?thesis
    proof (cases "truthy (codeBlock_of (tokenize (buffer_of env c)))")
      case True
      then obtain t where t: "codeBlock_of (tokenize (buffer_of env c)) = Some t" "t \<noteq> []"
        by (auto simp add: truthy_def split: option.splits)
      note f = acceptInput_command_fields[where tokenize = tokenize, OF assms Resolved False t]
      from True Resolved False show ?thesis by (simp add: Let_def f)
    next
      case nt: False
      note f = acceptInput_message_fields[where tokenize = tokenize, OF assms Resolved False nt]
      from nt Resolved False show ?thesis by (simp add: Let_def f)
    qed
  qed
qed

theorem counter_incremented_once_witness:
  "initialized example_controller
   \<and> agent_result (example_env cancelled_chunks Resolved) = Resolved
   \<and> (let r = acceptInput lexer (example_env cancelled_chunks Resolved) example_controller in
        accessibilityRequestId (snd r) = accessibilityRequestId example_controller + 1
      \<and> fst r = Returned Cancelled)"
  using counter_incremented_once[of example_controller lexer
      "example_env cancelled_chunks Resolved"]
  by (simp add: Let_def)

theorem counter_after_agent_error_counterexample:
  "agent_result (example_env command_chunks Rejected) = Rejected
   \<and> accessibilityRequestId
        (snd (acceptInput lexer (example_env command_chunks Rejected) example_controller))
      \<noteq> accessibilityRequestId example_controller + 1"
  using acceptInput_failed_fields(4)[of example_controller
      "example_env command_chunks Rejected" lexer]
  by simp

text \<open>
  C4. With the feature flag off, \<^verbatim>\<open>layout\<close> and \<^verbatim>\<open>xtermReady\<close> return at their
  guard and leave the controller as it is. \<^verbatim>\<open>acceptInput\<close> has no such guard and
  never reads the flag: on a controller constructed with the flag off it calls
  \<^verbatim>\<open>acceptRequest()\<close> on the accessibility service and then throws a
  \<^verbatim>\<open>TypeError\<close>, because \<^verbatim>\<open>_ctxHasActiveRequest\<close> was never assigned.
\<close>

theorem acceptInput_has_no_feature_gate:
  "layout False dimension c = c \<and> xtermReady False c = c
   \<and> acceptInput tokenize env (constructor False hasAgent) =
       (Threw TypeError, emit AcceptRequest (constructor False hasAgent))
   \<and> new_events (constructor False hasAgent)
         (snd (acceptInput tokenize env (constructor False hasAgent))) = [AcceptRequest]"
  by (simp add: layout_def xtermReady_def acceptInput_def constructor_def unassigned_def
      set_HasActiveRequest_def emit_def new_events_def)

text \<open>
  C5. If the agent invocation raises an error, \<^verbatim>\<open>acceptInput\<close> returns from its
  \<^verbatim>\<open>catch\<close> block and the error goes no further (the call returns, it does not
  throw); the active-request flag is false afterwards; neither
  \<^verbatim>\<open>renderTerminalCommand\<close> nor \<^verbatim>\<open>renderMessage\<close> is called, the
  accessibility-request counter keeps its value and the last-response-type flag is
  neither written nor changed. The progress clear \<^verbatim>\<open>updateProgress()\<close> is the
  last call of the run when the widget has been built. The call is optional-chained:
  a widget that has not been built is the absent sink of the specification, for which
  the update is silently dropped. That the invocation raises means that it was
  reached: the controller was constructed with the feature on.
\<close>

theorem agent_error_is_swallowed:
  assumes "initialized c" and "agent_result env = Rejected"
  shows "(let r = acceptInput tokenize env c in
          fst r = Returned AgentFailed
        \<and> ctxHasActiveRequest (snd r) = Some (IContextKey (Some False))
        \<and> accessibilityRequestId (snd r) = accessibilityRequestId c
        \<and> ctxLastResponseType (snd r) = ctxLastResponseType c
        \<and> filter is_render (new_events c (snd r)) = []
        \<and> (\<forall>v. SetLastResponseType v \<notin> set (new_events c (snd r)))
        \<and> (rawValue c \<noteq> None \<longrightarrow> last (new_events c (snd r)) = UpdateProgress None)
        \<and> (rawValue c = None \<longrightarrow> UpdateProgress None \<notin> set (new_events c (snd r))))"
proof -
  note f = acceptInput_failed_fields[where tokenize = tokenize, OF assms]
  note ne = failed_run_events[where tokenize = tokenize, OF assms]
  have built: "last (finish_events c) = UpdateProgress None" if "rawValue c \<noteq> None"
    using that by (auto simp add: finish_events_def)
  have dropped: "UpdateProgress None \<notin> set (new_events c (snd (acceptInput tokenize env c)))"
    if "rawValue c = None"
    using that by (simp add: ne no_widget_request_events)
  show ?thesis
    unfolding Let_def using built dropped by (simp add: f ne)
qed

theorem agent_error_is_swallowed_witness:
  "initialized example_controller
   \<and> agent_result (example_env command_chunks Rejected) = Rejected
   \<and> rawValue example_controller \<noteq> None
   \<and> (let r = acceptInput lexer (example_env command_chunks Rejected) example_controller in
          fst r = Returned AgentFailed
        \<and> ctxHasActiveRequest (snd r) = Some (IContextKey (Some False))
        \<and> accessibilityRequestId (snd r) = accessibilityRequestId example_controller
        \<and> ctxLastResponseType (snd r) = ctxLastResponseType example_controller
        \<and> filter is_render (new_events example_controller (snd r)) = []
        \<and> (\<forall>v. SetLastResponseType v \<notin> set (new_events example_controller (snd r)))
        \<and> last (new_events example_controller (snd r)) = UpdateProgress None)"
  using agent_error_is_swallowed[of example_controller "example_env command_chunks Rejected" lexer]
  by (simp add: Let_def)

text \<open>
  C6. In every run of \<^verbatim>\<open>acceptInput\<close> in which the agent invocation succeeds and
  cancellation was not requested (neither before the call nor during the invocation),
  exactly one branch is taken, and a controller whose widget has been built makes
  exactly one render call: \<^verbatim>\<open>renderTerminalCommand\<close> with the extracted text when the
  extracted code block is truthy, \<^verbatim>\<open>renderMessage\<close> with the whole buffer and the
  request identifier otherwise; never both, never neither. Both carry the counter's
  new value. The message branch, and only it, sets the last-response-type flag to
  \<^verbatim>\<open>OnlyMessages\<close>. The render calls are optional-chained: a widget that has not
  been built is the absent sink of the specification, for which the one render call
  of the branch is silently dropped.
\<close>

theorem exactly_one_render:
  assumes "initialized c" and "agent_result env = Resolved"
    and "\<not> cancelled_after (agent_events env) c"
  shows "(let r = acceptInput tokenize env c;
              cb = codeBlock_of (tokenize (buffer_of env c));
              n = accessibilityRequestId c + 1
          in filter is_render (new_events c (snd r)) =
               (if rawValue c = None then []
                else [if truthy cb
                      then RenderTerminalCommand (case cb of None \<Rightarrow> [] | Some t \<Rightarrow> t) n
                      else RenderMessage (buffer_of env c) n (uuid_first env)])
           \<and> fst r = Returned (if truthy cb then Command else Message)
           \<and> ctxLastResponseType (snd r) =
               (if truthy cb then ctxLastResponseType c else Some (IContextKey (Some OnlyMessages)))
           \<and> (SetLastResponseType OnlyMessages \<in> set (new_events c (snd r))) = (\<not> truthy cb))"
proof (cases "truthy (codeBlock_of (tokenize (buffer_of env c)))")
  case True
  then obtain t where t: "codeBlock_of (tokenize (buffer_of env c)) = Some t" "t \<noteq> []"
    by (auto simp add: truthy_def split: option.splits)
  note f = acceptInput_command_fields[where tokenize = tokenize, OF assms t]
  note g = command_run_renders[where tokenize = tokenize, OF assms t]
  from True t show ?thesis
    by (simp add: Let_def f g render_events_def split: option.splits)
next
  case False
  note f = acceptInput_message_fields[where tokenize = tokenize, OF assms False]
  note g = message_run_renders[where tokenize = tokenize, OF assms False]
  from False show ?thesis
    by (simp add: Let_def f g render_events_def split: option.splits)
qed

theorem exactly_one_render_witness:
  "initialized example_controller
   \<and> agent_result (example_env command_chunks Resolved) = Resolved
   \<and> \<not> cancelled_after (agent_events (example_env command_chunks Resolved)) example_controller
   \<and> rawValue example_controller \<noteq> None
   \<and> (let r = acceptInput lexer (example_env command_chunks Resolved) example_controller
       in filter is_render (new_events example_controller (snd r)) =
            [RenderTerminalCommand ''echo hi'' 1]
        \<and> fst r = Returned Command
        \<and> ctxLastResponseType (snd r) = ctxLastResponseType example_controller
        \<and> SetLastResponseType OnlyMessages \<notin> set (new_events example_controller (snd r)))"
  using exactly_one_render[of example_controller "example_env command_chunks Resolved" lexer]
  by (simp add: Let_def text_of_command_chunks codeBlock_echo_hi truthy_def)

text \<open>
  C7. The extraction step on the lexer modelled from the spec. From a buffer that
  contains a fenced block (a fence marker, a body without backticks, a fence marker)
  after text without backticks, the step extracts the body, without the markers: from
  the buffer \<^verbatim>\<open>```echo hi```\<close> it extracts \<^verbatim>\<open>echo hi\<close>. From a buffer in which the
  lexer finds no fenced block it extracts nothing, and every buffer without a fence
  marker is such a buffer. In a run that reaches the branch (the invocation has resolved
  and cancellation was not requested), an extracted text that is not empty makes the
  outcome a command with that text, and no extracted text makes it a message with the
  full buffer; the text is read off the render call that a built widget receives.
\<close>

theorem fenced_block_is_the_command:
  "(backtick \<notin> set pre \<and> backtick \<notin> set body \<longrightarrow>
      codeBlock_of (lexer (pre @ fence @ body @ fence @ post)) = Some body)
   \<and> (filter (\<lambda>t. token_type t = ''code'') (lexer s) = [] \<longrightarrow> codeBlock_of (lexer s) = None)
   \<and> (\<not> includes_str s fence \<longrightarrow> filter (\<lambda>t. token_type t = ''code'') (lexer s) = [])
   \<and> (initialized c \<and> agent_result env = Resolved \<and> \<not> cancelled_after (agent_events env) c \<longrightarrow>
        (codeBlock_of (lexer (buffer_of env c)) = Some cb \<and> cb \<noteq> [] \<longrightarrow>
           fst (acceptInput lexer env c) = Returned Command
         \<and> (rawValue c \<noteq> None \<longrightarrow>
               filter is_render (new_events c (snd (acceptInput lexer env c))) =
                 [RenderTerminalCommand cb (accessibilityRequestId c + 1)]))
      \<and> (codeBlock_of (lexer (buffer_of env c)) = None \<longrightarrow>
           fst (acceptInput lexer env c) = Returned Message
         \<and> (rawValue c \<noteq> None \<longrightarrow>
               filter is_render (new_events c (snd (acceptInput lexer env c))) =
                 [RenderMessage (buffer_of env c) (accessibilityRequestId c + 1)
                    (uuid_first env)])))"
proof -
  have cmd: "fst (acceptInput lexer env c) = Returned Command
      \<and> (rawValue c \<noteq> None \<longrightarrow>
           filter is_render (new_events c (snd (acceptInput lexer env c))) =
             [RenderTerminalCommand cb (accessibilityRequestId c + 1)])"
    if h: "initialized c" "agent_result env = Resolved" "\<not> cancelled_after (agent_events env) c"
      "codeBlock_of (lexer (buffer_of env c)) = Some cb" "cb \<noteq> []"
  proof -
    note f = acceptInput_command_fields[where tokenize = lexer, OF h]
    note g = command_run_renders[where tokenize = lexer, OF h]
    show ?thesis
      by (simp add: f g render_events_built)
  qed
  have msg: "fst (acceptInput lexer env c) = Returned Message
      \<and> (rawValue c \<noteq> None \<longrightarrow>
           filter is_render (new_events c (snd (acceptInput lexer env c))) =
             [RenderMessage (buffer_of env c) (accessibilityRequestId c + 1) (uuid_first env)])"
    if h: "initialized c" "agent_result env = Resolved" "\<not> cancelled_after (agent_events env) c"
      and none: "codeBlock_of (lexer (buffer_of env c)) = None"
  proof -
    from none have falsy: "\<not> truthy (codeBlock_of (lexer (buffer_of env c)))"
      by (simp add: truthy_def)
    note f = acceptInput_message_fields[where tokenize = lexer, OF h falsy]
    note g = message_run_renders[where tokenize = lexer, OF h falsy]
    show ?thesis
      by (simp add: f g render_events_built)
  qed
  show ?thesis
    using cmd msg codeBlock_fenced[of pre body post] codeBlock_of_none[of "lexer s"]
      lexer_plain[of s]
    by (simp del: append_assoc)
qed

theorem fenced_block_is_the_command_witness:
  "backtick \<notin> set [] \<and> backtick \<notin> set ''echo hi''
   \<and> ''```echo hi```'' = [] @ fence @ ''echo hi'' @ fence @ []
   \<and> codeBlock_of (lexer ''```echo hi```'') = Some ''echo hi''
   \<and> \<not> includes_str ''no code here'' fence
   \<and> filter (\<lambda>t. token_type t = ''code'') (lexer ''no code here'') = []
   \<and> codeBlock_of (lexer ''no code here'') = None
   \<and> initialized example_controller
   \<and> rawValue example_controller \<noteq> None
   \<and> agent_result (example_env command_chunks Resolved) = Resolved
   \<and> \<not> cancelled_after (agent_events (example_env command_chunks Resolved)) example_controller
   \<and> buffer_of (example_env command_chunks Resolved) example_controller = ''```echo hi```''
   \<and> fst (acceptInput lexer (example_env command_chunks Resolved) example_controller)
       = Returned Command
   \<and> filter is_render (new_events example_controller
        (snd (acceptInput lexer (example_env command_chunks Resolved) example_controller)))
       = [RenderTerminalCommand ''echo hi'' 1]
   \<and> agent_result (example_env plain_chunks Resolved) = Resolved
   \<and> \<not> cancelled_after (agent_events (example_env plain_chunks Resolved)) example_controller
   \<and> buffer_of (example_env plain_chunks Resolved) example_controller = ''no code here''
   \<and> fst (acceptInput lexer (example_env plain_chunks Resolved) example_controller)
       = Returned Message
   \<and> filter is_render (new_events example_controller
        (snd (acceptInput lexer (example_env plain_chunks Resolved) example_controller)))
       = [RenderMessage ''no code here'' 1 ''request-1'']"
proof -
  have cb: "codeBlock_of (lexer ''```echo hi```'') = Some ''echo hi''"
    using fenced_block_is_the_command[of "[]" "''echo hi''" "[]"] no_backtick_in_echo_hi
    by (simp add: fence_def)
  have plain: "filter (\<lambda>t. token_type t = ''code'') (lexer ''no code here'') = []"
    using fenced_block_is_the_command[of _ _ _ "''no code here''"] no_fence_in_plain
    by simp
  have none: "codeBlock_of (lexer ''no code here'') = None"
    using fenced_block_is_the_command[of _ _ _ "''no code here''"] plain
    by simp
  have command: "fst (acceptInput lexer (example_env command_chunks Resolved) example_controller)
       = Returned Command
     \<and> filter is_render (new_events example_controller
        (snd (acceptInput lexer (example_env command_chunks Resolved) example_controller)))
       = [RenderTerminalCommand ''echo hi'' 1]"
    using fenced_block_is_the_command[of _ _ _ _ example_controller
        "example_env command_chunks Resolved" "''echo hi''"] cb
    by (simp add: text_of_command_chunks)
  have message: "fst (acceptInput lexer (example_env plain_chunks Resolved) example_controller)
       = Returned Message
     \<and> filter is_render (new_events example_controller
        (snd (acceptInput lexer (example_env plain_chunks Resolved) example_controller)))
       = [RenderMessage ''no code here'' 1 ''request-1'']"
    using fenced_block_is_the_command[of _ _ _ _ example_controller
        "example_env plain_chunks Resolved"] none
    by (simp add: text_of_plain_chunks)
  show ?thesis
    using cb plain none command message echo_hi_fenced no_backtick_in_echo_hi no_fence_in_plain
    by (simp add: text_of_command_chunks text_of_plain_chunks)
qed

text \<open>
  C8. For every sequence of progress chunks delivered while cancellation is not
  requested, the buffer afterwards is the buffer before followed by the contents, in
  arrival order, of the chunks of kind \<^verbatim>\<open>content\<close> or \<^verbatim>\<open>markdownContent\<close>; chunks of
  any other kind add nothing to it. When the widget has been built, every chunk, of
  whatever kind, is passed in order to its \<^verbatim>\<open>updateProgress\<close>. The call is
  optional-chained: a widget that has not been built is the absent sink of the
  specification, for which the updates are silently dropped while the buffer
  accumulates all the same.
\<close>

theorem progress_accumulates_in_order:
  assumes "\<not> token_cancelled c"
  shows "(let r = invokeAgent (map Progress ps) (msg, c) in
            fst r = msg @ concat (map content (filter is_text ps))
          \<and> new_events c (snd r) =
              (if rawValue c = None then [] else map (\<lambda>p. UpdateProgress (Some p)) ps))"
  using deliver_chunks[OF assms, of ps msg]
  by (auto simp add: Let_def text_of_def forwarded_def)

theorem progress_accumulates_in_order_witness:
  "\<not> token_cancelled example_controller \<and> rawValue example_controller \<noteq> None
   \<and> (let r = invokeAgent (map Progress three_chunks) ([], example_controller) in
         fst r = ''```echo hi```''
       \<and> new_events example_controller (snd r) =
           [UpdateProgress (Some \<lparr>kind = ''content'', content = ''```echo ''\<rparr>),
            UpdateProgress (Some \<lparr>kind = ''progressMessage'', content = ''thinking''\<rparr>),
            UpdateProgress (Some \<lparr>kind = ''markdownContent'', content = ''hi```''\<rparr>)])"
  using progress_accumulates_in_order[of example_controller three_chunks "[]"]
  by (simp add: Let_def three_chunks_def is_text_def)

text \<open>
  C9. The extraction is \<^verbatim>\<open>replaceAll('```', '')\<close> on the raw text of the first
  token of type \<^verbatim>\<open>code\<close>, whatever the lexer: it removes every triple-backtick
  sequence, found from left to right, so the extracted text contains no fence marker
  anywhere. The raw text of a fenced block with an info string, three backticks,
  \<^verbatim>\<open>bash\<close>, newline, \<^verbatim>\<open>echo hi\<close>, newline, three backticks, is extracted to
  \<open>bash_text\<close>, which begins with the info string. In a run that reaches the branch
  (the invocation has resolved and cancellation was not requested), an extracted text
  that is not empty makes the outcome a command, and it is the text that a built widget
  receives.
\<close>

theorem every_fence_marker_is_removed:
  "(filter (\<lambda>t. token_type t = ''code'') tokens = t # ts \<longrightarrow>
      codeBlock_of tokens = Some (replaceAll fence [] (raw t)))
   \<and> \<not> includes_str (replaceAll fence [] s) fence
   \<and> replaceAll fence [] (fence @ bash_text @ fence) = bash_text
   \<and> take 4 bash_text = ''bash''
   \<and> (initialized c \<and> agent_result env = Resolved \<and> \<not> cancelled_after (agent_events env) c
        \<and> codeBlock_of (tokenize (buffer_of env c)) = Some cb \<and> cb \<noteq> [] \<longrightarrow>
          fst (acceptInput tokenize env c) = Returned Command
        \<and> (rawValue c \<noteq> None \<longrightarrow>
              filter is_render (new_events c (snd (acceptInput tokenize env c))) =
                [RenderTerminalCommand cb (accessibilityRequestId c + 1)]))"
proof -
  have run: "fst (acceptInput tokenize env c) = Returned Command
      \<and> (rawValue c \<noteq> None \<longrightarrow>
           filter is_render (new_events c (snd (acceptInput tokenize env c))) =
             [RenderTerminalCommand cb (accessibilityRequestId c + 1)])"
    if h: "initialized c" "agent_result env = Resolved" "\<not> cancelled_after (agent_events env) c"
      "codeBlock_of (tokenize (buffer_of env c)) = Some cb" "cb \<noteq> []"
  proof -
    note f = acceptInput_command_fields[where tokenize = tokenize, OF h]
    note g = command_run_renders[where tokenize = tokenize, OF h]
    show ?thesis
      by (simp add: f g render_events_built)
  qed
  show ?thesis
    using run codeBlock_of_first[of tokens t ts] strip_leaves_no_fence[of s] strip_bash
      bash_text_begins_with_info_string
    by blast
qed

theorem every_fence_marker_is_removed_witness:
  "filter (\<lambda>t. token_type t = ''code'') (lexer (fence @ bash_text @ fence))
     = \<lparr>token_type = ''code'', raw = fence @ bash_text @ fence\<rparr> # []
   \<and> codeBlock_of (lexer (fence @ bash_text @ fence)) = Some bash_text
   \<and> \<not> includes_str bash_text fence
   \<and> take 4 bash_text = ''bash''
   \<and> initialized example_controller
   \<and> agent_result (example_env bash_chunks Resolved) = Resolved
   \<and> \<not> cancelled_after (agent_events (example_env bash_chunks Resolved)) example_controller
   \<and> buffer_of (example_env bash_chunks Resolved) example_controller = fence @ bash_text @ fence
   \<and> bash_text \<noteq> []
   \<and> rawValue example_controller \<noteq> None
   \<and> fst (acceptInput lexer (example_env bash_chunks Resolved) example_controller)
       = Returned Command
   \<and> filter is_render (new_events example_controller
         (snd (acceptInput lexer (example_env bash_chunks Resolved) example_controller)))
       = [RenderTerminalCommand bash_text 1]"
proof -
  have cb: "codeBlock_of (lexer (fence @ bash_text @ fence)) = Some bash_text"
    using every_fence_marker_is_removed[of "lexer (fence @ bash_text @ fence)"
        "\<lparr>token_type = ''code'', raw = fence @ bash_text @ fence\<rparr>" "[]"] lexer_bash
    by (simp add: strip_bash)
  have nf: "\<not> includes_str bash_text fence"
    using every_fence_marker_is_removed[of _ _ _ "fence @ bash_text @ fence"]
    by (simp add: strip_bash)
  have run: "fst (acceptInput lexer (example_env bash_chunks Resolved) example_controller)
       = Returned Command
     \<and> filter is_render (new_events example_controller
         (snd (acceptInput lexer (example_env bash_chunks Resolved) example_controller)))
       = [RenderTerminalCommand bash_text 1]"
    using every_fence_marker_is_removed[of _ _ _ _ example_controller
        "example_env bash_chunks Resolved" lexer bash_text] cb
    by (simp add: text_of_bash_chunks)
  show ?thesis
    using cb nf run lexer_bash bash_text_begins_with_info_string
    by (simp add: text_of_bash_chunks)
qed

text \<open>
  C10. If the raw text of the first code token strips to the empty string (so a fenced
  code block was present in the buffer), \<^verbatim>\<open>if (codeBlock)\<close> is false and
  \<^verbatim>\<open>acceptInput\<close> takes the message branch: the last-response-type flag is set to
  \<^verbatim>\<open>OnlyMessages\<close>, and a widget that has been built receives \<^verbatim>\<open>renderMessage\<close> with
  the full buffer and no other render call. The render call is optional-chained: a
  widget that has not been built is the absent sink of the specification, for which
  the render call is silently dropped. The branch is that of a run that reaches it:
  the invocation has resolved and cancellation was not requested. The property holds
  for every lexer; the concrete run has a buffer of two fence markers, read by the
  lexer modelled from the specification.
\<close>

theorem empty_code_block_is_a_message:
  assumes "initialized c" and "agent_result env = Resolved"
    and "\<not> cancelled_after (agent_events env) c"
    and "codeBlock_of (tokenize (buffer_of env c)) = Some []"
  shows "(let r = acceptInput tokenize env c in
            fst r = Returned Message
          \<and> filter is_render (new_events c (snd r)) =
              (if rawValue c = None then []
               else [RenderMessage (buffer_of env c) (accessibilityRequestId c + 1)
                       (uuid_first env)])
          \<and> SetLastResponseType OnlyMessages \<in> set (new_events c (snd r))
          \<and> ctxLastResponseType (snd r) = Some (IContextKey (Some OnlyMessages)))"
proof -
  have falsy: "\<not> truthy (codeBlock_of (tokenize (buffer_of env c)))"
    using assms(4) by (simp add: truthy_def)
  note f = acceptInput_message_fields[where tokenize = tokenize,
      OF assms(1) assms(2) assms(3) falsy]
  note g = message_run_renders[where tokenize = tokenize,
      OF assms(1) assms(2) assms(3) falsy]
  show ?thesis
    by (simp add: Let_def f g render_events_def split: option.splits)
qed

theorem empty_code_block_is_a_message_witness:
  "initialized example_controller
   \<and> agent_result (example_env empty_block_chunks Resolved) = Resolved
   \<and> \<not> cancelled_after (agent_events (example_env empty_block_chunks Resolved)) example_controller
   \<and> codeBlock_of (lexer (buffer_of (example_env empty_block_chunks Resolved) example_controller))
       = Some []
   \<and> rawValue example_controller \<noteq> None
   \<and> (let r = acceptInput lexer (example_env empty_block_chunks Resolved) example_controller in
            fst r = Returned Message
          \<and> filter is_render (new_events example_controller (snd r)) =
              [RenderMessage ''``````'' 1 ''request-1'']
          \<and> SetLastResponseType OnlyMessages \<in> set (new_events example_controller (snd r))
          \<and> ctxLastResponseType (snd r) = Some (IContextKey (Some OnlyMessages)))"
  using empty_code_block_is_a_message[of example_controller
      "example_env empty_block_chunks Resolved" lexer]
  by (simp add: Let_def text_of_empty_block_chunks codeBlock_fences_only)

end
